theory Spec2Isabelle
  imports Complex_Main "HOL-Library.Sublist"
begin

unbundle bit_operations_syntax

section \<open>Python values used by \<^verbatim>\<open>challenge_1b.py\<close>\<close>

text \<open>
  A Python \<^verbatim>\<open>str\<close> is modelled as a \<^typ>\<open>string\<close>, a list of 8-bit characters read
  as the code points 0 to 255, so \<^const>\<open>length\<close> is Python's \<^verbatim>\<open>len\<close> on such text.
  Python floats are modelled as \<^typ>\<open>real\<close>. For the font sizes rounding is abstracted
  away; the additions that build the relevance score round as doubles do (see
  \<open>float_add\<close>). Python ints are \<^typ>\<open>int\<close>. Exceptions are values of \<open>py_error\<close>, and
  a computation that can raise returns \<open>py_error + 'a\<close> with \<open>Inl\<close> for the exception.
\<close>

datatype py_error =
    ZeroDivisionError
  | IndexError
  | RuntimeError
  | FitzError string

text \<open>
  \<^verbatim>\<open>str.isspace\<close> on one character, which is also what \<^verbatim>\<open>\s\<close> matches in a \<^verbatim>\<open>str\<close>
  pattern and what \<^verbatim>\<open>str.strip()\<close> removes: TAB to CR, the separators FS to US, the space,
  NEL and NBSP.
\<close>

definition py_isspace :: "char \<Rightarrow> bool" where
  "py_isspace c =
     (let n = (of_char c :: nat)
      in (9 \<le> n \<and> n \<le> 13) \<or> (28 \<le> n \<and> n \<le> 32) \<or> n = 133 \<or> n = 160)"

text \<open>\<^verbatim>\<open>\d\<close> in a \<^verbatim>\<open>str\<close> pattern: the decimal digits (below code point 256, 0 to 9).\<close>

definition py_isdigit :: "char \<Rightarrow> bool" where
  "py_isdigit c = (let n = (of_char c :: nat) in 48 \<le> n \<and> n \<le> 57)"

text \<open>\<^verbatim>\<open>str.lower()\<close>: A-Z and the Latin-1 capitals move up by 32.\<close>

definition lower_char :: "char \<Rightarrow> char" where
  "lower_char c =
     (let n = (of_char c :: nat)
      in if (65 \<le> n \<and> n \<le> 90) \<or> (192 \<le> n \<and> n \<le> 222 \<and> n \<noteq> 215)
         then char_of (n + 32) else c)"

definition lower :: "string \<Rightarrow> string" where
  "lower s = map lower_char s"

text \<open>\<^verbatim>\<open>s.strip()\<close>\<close>

definition strip :: "string \<Rightarrow> string" where
  "strip s = rev (dropWhile py_isspace (rev (dropWhile py_isspace s)))"

text \<open>\<^verbatim>\<open>" ".join(parts)\<close>\<close>

fun join_space :: "string list \<Rightarrow> string" where
  "join_space [] = []"
| "join_space [p] = p"
| "join_space (p # q # ps) = p @ '' '' @ join_space (q # ps)"

text \<open>\<^verbatim>\<open>needle in hay\<close> on strings: \<open>needle\<close> occurs as a contiguous substring.\<close>

fun py_in :: "string \<Rightarrow> string \<Rightarrow> bool" where
  "py_in needle [] = (needle = [])"
| "py_in needle (c # cs) = (prefix needle (c # cs) \<or> py_in needle cs)"

text \<open>\<^verbatim>\<open>s.rfind(c)\<close> for a one-character \<open>c\<close>: the highest index of \<open>c\<close>, or -1.\<close>

fun rfind_from :: "int \<Rightarrow> char \<Rightarrow> string \<Rightarrow> int" where
  "rfind_from i c [] = -1"
| "rfind_from i c (x # xs) =
     (let r = rfind_from (i + 1) c xs in if r \<noteq> -1 then r else if x = c then i else -1)"

definition rfind :: "string \<Rightarrow> char \<Rightarrow> int" where
  "rfind s c = rfind_from 0 c s"

text \<open>\<^verbatim>\<open>xs[:n]\<close>: a negative \<open>n\<close> counts from the end.\<close>

definition slice_to :: "'a list \<Rightarrow> int \<Rightarrow> 'a list" where
  "slice_to xs n = (if 0 \<le> n then take (nat n) xs else take (length xs - nat (- n)) xs)"

subsection \<open>Float addition\<close>

text \<open>
  The relevance score is a Python float and \<^verbatim>\<open>+=\<close> rounds: the sum of two doubles is the
  double nearest to the exact sum, ties going to the even significand. A double is
  modelled by its value, a real number \<open>m * 2 ^ e\<close> with \<open>\<bar>m\<bar> < 2 ^ 53\<close> and
  \<open>e \<ge> - 1074\<close>. \<open>ulp_exponent a\<close> is the exponent \<open>e\<close> of the doubles around a magnitude
  \<open>a\<close>: the least \<open>e \<ge> - 1074\<close> with \<open>a < 2 ^ (e + 53)\<close>, found by bisection. Overflow to
  infinity and NaN are not modelled; the scores here stay below 4.
\<close>

definition ulp_exponent :: "real \<Rightarrow> int" where
  "ulp_exponent a =
     foldl (\<lambda>e s. if 2 powi (e + s + 52) \<le> a then e + s else e) (- 1074)
       [1024, 512, 256, 128, 64, 32, 16, 8, 4, 2, 1]"

definition round_half_even :: "real \<Rightarrow> int" where
  "round_half_even y =
     (let f = \<lfloor>y\<rfloor>; d = y - of_int f
      in if d < 1 / 2 then f else if 1 / 2 < d then f + 1 else if even f then f else f + 1)"

definition round_to_double :: "real \<Rightarrow> real" where
  "round_to_double x =
     (let e = ulp_exponent \<bar>x\<bar>
      in sgn x * of_int (round_half_even (\<bar>x\<bar> / 2 powi e)) * 2 powi e)"

text \<open>\<^verbatim>\<open>x + y\<close> on floats, and the literal \<^verbatim>\<open>0.1\<close>.\<close>

definition float_add :: "real \<Rightarrow> real \<Rightarrow> real" where
  "float_add x y = round_to_double (x + y)"

definition point_one :: real where
  "point_one = round_to_double (1 / 10)"

subsection \<open>Regular expressions and \<^verbatim>\<open>re.match\<close>\<close>

datatype char_class = Digit | Space | One_of string | Range_az | Range_AZ

fun in_class :: "char_class \<Rightarrow> char \<Rightarrow> bool" where
  "in_class Digit c = py_isdigit c"
| "in_class Space c = py_isspace c"
| "in_class (One_of s) c = (c \<in> set s)"
| "in_class Range_az c = (let n = (of_char c :: nat) in 97 \<le> n \<and> n \<le> 122)"
| "in_class Range_AZ c = (let n = (of_char c :: nat) in 65 \<le> n \<and> n \<le> 90)"

datatype regex =
    Zero
  | One
  | Atom "char_class list"
  | Times regex regex
  | Alt regex regex
  | Star regex

text \<open>\<open>r+\<close> and \<open>r?\<close>\<close>

definition Plus :: "regex \<Rightarrow> regex" where
  "Plus r = Times r (Star r)"

definition Opt :: "regex \<Rightarrow> regex" where
  "Opt r = Alt r One"

fun nullable :: "regex \<Rightarrow> bool" where
  "nullable Zero = False"
| "nullable One = True"
| "nullable (Atom cs) = False"
| "nullable (Times r s) = (nullable r \<and> nullable s)"
| "nullable (Alt r s) = (nullable r \<or> nullable s)"
| "nullable (Star r) = True"

fun deriv :: "char \<Rightarrow> regex \<Rightarrow> regex" where
  "deriv c Zero = Zero"
| "deriv c One = Zero"
| "deriv c (Atom cs) = (if list_ex (\<lambda>k. in_class k c) cs then One else Zero)"
| "deriv c (Times r s) =
     (if nullable r then Alt (Times (deriv c r) s) (deriv c s) else Times (deriv c r) s)"
| "deriv c (Alt r s) = Alt (deriv c r) (deriv c s)"
| "deriv c (Star r) = Times (deriv c r) (Star r)"

text \<open>
  \<^verbatim>\<open>re.match(pattern, text)\<close> read as a truth value: the pattern matches some prefix of the
  text, starting at its first character.
\<close>

fun re_match :: "regex \<Rightarrow> string \<Rightarrow> bool" where
  "re_match r [] = nullable r"
| "re_match r (c # cs) = (nullable r \<or> re_match (deriv c r) cs)"

text \<open>\<^verbatim>\<open>re.sub(r'\s+', ' ', s)\<close>: every maximal run of whitespace becomes one space.\<close>

function sub_spaces :: "string \<Rightarrow> string" where
  "sub_spaces [] = []"
| "sub_spaces (c # cs) =
     (if py_isspace c then CHR '' '' # sub_spaces (dropWhile py_isspace cs)
      else c # sub_spaces cs)"
  by pat_completeness auto
termination
  by (relation "measure length") (auto simp: length_dropWhile_le less_Suc_eq_le)

section \<open>\<^verbatim>\<open>DocumentParser\<close>\<close>

text \<open>
  What PyMuPDF hands to the parser. A span is a run of text with its font size, its
  flags and the left edge of its bounding box; a line is its list of spans; a block
  either has a \<^verbatim>\<open>"lines"\<close> key or not (an image block). A page answers
  \<^verbatim>\<open>get_text("dict")\<close> and \<^verbatim>\<open>get_text("dict", flags=...)\<close> (ligatures expanded) with
  its blocks, or raises.
\<close>

record span =
  span_text :: string
  span_size :: real
  span_flags :: int
  span_x0 :: real

type_synonym line = "span list"

datatype block = Image_block | Text_block "line list"

record page =
  get_text_dict :: "py_error + block list"
  get_text_flags :: "py_error + block list"

type_synonym fitz_doc = "page list"

text \<open>A \<^verbatim>\<open>Path\<close>: where it points, and its final component \<^verbatim>\<open>.name\<close>.\<close>

record path =
  location :: string
  name :: string

text \<open>
  The section dictionaries. The source key \<^verbatim>\<open>"text"\<close> is the field \<open>heading_text\<close>
  here. \<^verbatim>\<open>analyze\<close> adds the keys \<^verbatim>\<open>"document"\<close> and \<^verbatim>\<open>"relevance"\<close>.
\<close>

record parsed_section =
  level :: string
  heading_text :: string
  page :: int
  content :: string

record pooled_section = parsed_section +
  document :: string

record scored_section = pooled_section +
  relevance :: real

text \<open>The three patterns of \<^verbatim>\<open>_is_heading_pattern\<close>, in the source's order.\<close>

definition sep_then_spaces :: regex where
  "sep_then_spaces = Times (Atom [One_of ''.)'']) (Plus (Atom [Space]))"

definition pattern_decimal :: regex where
  "pattern_decimal =
     Times (Plus (Atom [Digit]))
       (Times (Star (Times (Atom [One_of ''.'']) (Plus (Atom [Digit]))))
         (Times (Opt (Atom [One_of ''.)''])) (Plus (Atom [Space]))))"

definition pattern_roman :: regex where
  "pattern_roman = Times (Plus (Atom [One_of ''IVXLCDMivxlcdm''])) sep_then_spaces"

definition pattern_letter :: regex where
  "pattern_letter = Times (Atom [Range_AZ, Range_az]) sep_then_spaces"

definition patterns :: "regex list" where
  "patterns = [pattern_decimal, pattern_roman, pattern_letter]"

definition is_heading_pattern :: "string \<Rightarrow> bool" where
  "is_heading_pattern t = (if t = [] then False else list_ex (\<lambda>p. re_match p t) patterns)"

text \<open>The heading test of \<^verbatim>\<open>extract_structure\<close> (lines 45 to 50).\<close>

definition is_heading :: "real \<Rightarrow> real \<Rightarrow> bool \<Rightarrow> string \<Rightarrow> bool" where
  "is_heading avg_font_size font_size is_bold line_text =
     (font_size > avg_font_size * 1.1 \<or>
      (is_bold \<and> font_size > avg_font_size * 0.9) \<or>
      is_heading_pattern line_text \<or>
      (length line_text < 100 \<and> is_bold))"

text \<open>A \<^verbatim>\<open>for\<close> loop whose body can raise: the first exception ends the loop.\<close>

fun for_each :: "('s \<Rightarrow> 'a \<Rightarrow> py_error + 's) \<Rightarrow> 'a list \<Rightarrow> 's \<Rightarrow> py_error + 's" where
  "for_each body [] st = Inr st"
| "for_each body (x # xs) st =
     (case body st x of Inl e \<Rightarrow> Inl e | Inr st' \<Rightarrow> for_each body xs st')"

subsection \<open>\<^verbatim>\<open>_calculate_average_font_size\<close>\<close>

fun block_spans :: "block \<Rightarrow> span list" where
  "block_spans Image_block = []"
| "block_spans (Text_block lines) = concat lines"

definition collect_page :: "span list \<Rightarrow> page \<Rightarrow> py_error + span list" where
  "collect_page acc p =
     (case get_text_dict p of
        Inl e \<Rightarrow> Inl e
      | Inr blocks \<Rightarrow> Inr (acc @ concat (map block_spans blocks)))"

definition calculate_average_font_size :: "fitz_doc \<Rightarrow> py_error + real" where
  "calculate_average_font_size doc =
     (case for_each collect_page doc [] of
        Inl e \<Rightarrow> Inl e
      | Inr spans \<Rightarrow>
          (let font_sizes = map span_size spans;
               counts = map (\<lambda>s. int (length (span_text s))) spans
           in if counts \<noteq> []
              then (if sum_list counts = 0 then Inl ZeroDivisionError
                    else Inr (sum_list (map (\<lambda>(s, c). s * real_of_int c) (zip font_sizes counts))
                              / real_of_int (sum_list counts)))
              else Inr 12.0))"

subsection \<open>\<^verbatim>\<open>extract_structure\<close>\<close>

text \<open>The loop state: \<^verbatim>\<open>sections\<close> and \<^verbatim>\<open>current_heading\<close>.\<close>

type_synonym parse_state = "parsed_section list \<times> parsed_section"

definition seed_heading :: parsed_section where
  "seed_heading = \<lparr>level = ''title'', heading_text = ''Introduction'', page = 0, content = ''''\<rparr>"

definition close_heading :: "parse_state \<Rightarrow> parsed_section list" where
  "close_heading st =
     (case st of (sections, current_heading) \<Rightarrow>
        if strip (content current_heading) \<noteq> [] then sections @ [current_heading]
        else sections)"

definition process_line :: "real \<Rightarrow> int \<Rightarrow> parse_state \<Rightarrow> line \<Rightarrow> py_error + parse_state" where
  "process_line avg_font_size page_num st line_spans =
     (let spans = sort_key span_x0 line_spans;
          line_text = strip (join_space (map span_text spans))
      in if line_text = [] then Inr st
         else (case spans of
                 [] \<Rightarrow> Inl IndexError
               | first_span # _ \<Rightarrow>
                   (let font_size = span_size first_span;
                        is_bold = (span_flags first_span AND 16 \<noteq> 0)
                    in if is_heading avg_font_size font_size is_bold line_text
                          \<and> line_text \<noteq> ''Introduction''
                       then Inr (close_heading st,
                                 \<lparr>level = ''H1'', heading_text = line_text,
                                  page = page_num, content = ''''\<rparr>)
                       else Inr (fst st,
                                 (snd st)\<lparr>content := content (snd st) @ line_text @ '' ''\<rparr>))))"

fun process_block :: "real \<Rightarrow> int \<Rightarrow> parse_state \<Rightarrow> block \<Rightarrow> py_error + parse_state" where
  "process_block avg_font_size page_num st Image_block = Inr st"
| "process_block avg_font_size page_num st (Text_block lines) =
     for_each (process_line avg_font_size page_num) lines st"

definition process_page :: "real \<Rightarrow> parse_state \<Rightarrow> int \<times> page \<Rightarrow> py_error + parse_state" where
  "process_page avg_font_size st np =
     (case np of (page_num, p) \<Rightarrow>
        (case get_text_flags p of
           Inl e \<Rightarrow> Inl e
         | Inr blocks \<Rightarrow> for_each (process_block avg_font_size page_num) blocks st))"

text \<open>\<^verbatim>\<open>enumerate(xs)\<close>\<close>

definition py_enumerate :: "'a list \<Rightarrow> (int \<times> 'a) list" where
  "py_enumerate xs = zip (map int [0..<length xs]) xs"

text \<open>The body of the \<^verbatim>\<open>try\<close>, and the function with its \<^verbatim>\<open>except Exception\<close>.\<close>

definition extract_body :: "(path \<Rightarrow> py_error + fitz_doc) \<Rightarrow> path \<Rightarrow> py_error + parsed_section list" where
  "extract_body fitz_open pdf_path =
     (case fitz_open pdf_path of
        Inl e \<Rightarrow> Inl e
      | Inr doc \<Rightarrow>
          (case calculate_average_font_size doc of
             Inl e \<Rightarrow> Inl e
           | Inr avg_font_size \<Rightarrow>
               (case for_each (process_page avg_font_size) (py_enumerate doc)
                       ([], seed_heading) of
                  Inl e \<Rightarrow> Inl e
                | Inr st \<Rightarrow> Inr (close_heading st))))"

definition extract_structure :: "(path \<Rightarrow> py_error + fitz_doc) \<Rightarrow> path \<Rightarrow> parsed_section list" where
  "extract_structure fitz_open pdf_path =
     (case extract_body fitz_open pdf_path of Inl e \<Rightarrow> [] | Inr sections \<Rightarrow> sections)"

section \<open>\<^verbatim>\<open>DocumentAnalyst\<close>\<close>

text \<open>
  What \<^verbatim>\<open>json.load\<close> returns, and its Python truth value. A dict is the list of its
  items in insertion order, each key once.
\<close>

datatype json =
    JNull
  | JBool bool
  | JInt int
  | JFloat real
  | JStr string
  | JArr "json list"
  | JObj "(string \<times> json) list"

fun truthy :: "json \<Rightarrow> bool" where
  "truthy JNull = False"
| "truthy (JBool b) = b"
| "truthy (JInt i) = (i \<noteq> 0)"
| "truthy (JFloat x) = (x \<noteq> 0)"
| "truthy (JStr s) = (s \<noteq> [])"
| "truthy (JArr xs) = (xs \<noteq> [])"
| "truthy (JObj kvs) = (kvs \<noteq> [])"

text \<open>The output dictionaries.\<close>

record extracted_entry =
  es_document :: string
  section_title :: string
  importance_rank :: int
  es_page_number :: int

record analysis_entry =
  sa_document :: string
  refined_text :: string
  sa_page_number :: int

record report =
  metadata :: "(string \<times> json) list"
  extracted_sections :: "extracted_entry list"
  subsection_analysis :: "analysis_entry list"

subsection \<open>Pooling and scoring (lines 91 to 132 of \<^verbatim>\<open>analyze\<close>)\<close>

definition pool_document :: "(path \<Rightarrow> py_error + fitz_doc) \<Rightarrow> path \<Rightarrow> pooled_section list" where
  "pool_document fitz_open doc_path =
     map (\<lambda>s. \<lparr>level = level s, heading_text = heading_text s, page = page s,
               content = content s, document = name doc_path\<rparr>)
         (extract_structure fitz_open doc_path)"

definition parse_all :: "(path \<Rightarrow> py_error + fitz_doc) \<Rightarrow> path list \<Rightarrow> pooled_section list" where
  "parse_all fitz_open doc_paths = concat (map (pool_document fitz_open) doc_paths)"

definition enhanced_query :: "string \<Rightarrow> string \<Rightarrow> string" where
  "enhanced_query persona_role job_task =
     ''Role: '' @ persona_role @ ''. Task: '' @ job_task @
     ''. Focus on activities, coastal adventures, nightlife, dining, cities, practical tips for young adults traveling together in groups.''"

definition combined_text :: "pooled_section \<Rightarrow> string" where
  "combined_text s = heading_text s @ '' '' @ heading_text s @ '' '' @ content s"

definition boost_keywords :: "string list" where
  "boost_keywords =
     [''coastal'', ''beach'', ''nightlife'', ''entertainment'', ''bar'', ''club'',
      ''activities'', ''things to do'', ''comprehensive guide'', ''cities'',
      ''culinary'', ''cooking'', ''wine'', ''group'', ''friends'', ''young'',
      ''packing'', ''tips'', ''tricks'', ''practical'']"

text \<open>One turn of the keyword loop (lines 130 to 132).\<close>

definition boost_step :: "string \<Rightarrow> string \<Rightarrow> real \<Rightarrow> string \<Rightarrow> real" where
  "boost_step title_lower content_lower rel keyword =
     (if py_in keyword title_lower \<or> py_in keyword content_lower
      then float_add rel point_one else rel)"

text \<open>
  The body of the scoring loop for one section: \<open>cosine_score\<close> is
  \<^verbatim>\<open>cosine_scores[i].item()\<close>, the result is the section with its \<^verbatim>\<open>"relevance"\<close>.
\<close>

definition score_section :: "real \<Rightarrow> pooled_section \<Rightarrow> scored_section" where
  "score_section cosine_score s =
     (let title_lower = lower (heading_text s);
          content_lower = lower (content s)
      in \<lparr>level = level s, heading_text = heading_text s, page = page s,
          content = content s, document = document s,
          relevance = foldl (boost_step title_lower content_lower) cosine_score boost_keywords\<rparr>)"

subsection \<open>\<^verbatim>\<open>_select_diverse_sections\<close>\<close>

text \<open>\<^verbatim>\<open>doc_count.get(doc_name, 0)\<close>\<close>

definition get0 :: "(string \<rightharpoonup> int) \<Rightarrow> string \<Rightarrow> int" where
  "get0 doc_count doc_name = (case doc_count doc_name of None \<Rightarrow> 0 | Some n \<Rightarrow> n)"

text \<open>The first loop; its state is \<^verbatim>\<open>selected\<close> and \<^verbatim>\<open>doc_count\<close>.\<close>

definition pass1_step ::
  "int \<Rightarrow> scored_section list \<times> (string \<rightharpoonup> int) \<Rightarrow> scored_section
     \<Rightarrow> scored_section list \<times> (string \<rightharpoonup> int)" where
  "pass1_step max_sections st s =
     (case st of (selected, doc_count) \<Rightarrow>
        (let doc_name = document s
         in if get0 doc_count doc_name < 2 \<and> int (length selected) < max_sections
            then (selected @ [s], doc_count(doc_name \<mapsto> get0 doc_count doc_name + 1))
            else (selected, doc_count)))"

definition pass1 :: "int \<Rightarrow> scored_section list \<Rightarrow> scored_section list \<times> (string \<rightharpoonup> int)" where
  "pass1 max_sections ranked_sections =
     foldl (pass1_step max_sections) ([], Map.empty) ranked_sections"

text \<open>The second loop, with its \<^verbatim>\<open>break\<close>.\<close>

fun pass2 :: "int \<Rightarrow> scored_section list \<Rightarrow> scored_section list \<Rightarrow> scored_section list" where
  "pass2 max_sections selected [] = selected"
| "pass2 max_sections selected (s # rest) =
     (if int (length selected) \<ge> max_sections then selected
      else pass2 max_sections (if s \<notin> set selected then selected @ [s] else selected) rest)"

definition select_diverse_sections :: "scored_section list \<Rightarrow> int \<Rightarrow> scored_section list" where
  "select_diverse_sections ranked_sections max_sections =
     slice_to (pass2 max_sections (fst (pass1 max_sections ranked_sections)) ranked_sections)
       max_sections"

subsection \<open>The formatters\<close>

definition format_extracted_sections :: "scored_section list \<Rightarrow> extracted_entry list" where
  "format_extracted_sections selected_sections =
     map (\<lambda>(i, s). \<lparr>es_document = document s, section_title = heading_text s,
                    importance_rank = i + 1, es_page_number = page s + 1\<rparr>)
         (py_enumerate selected_sections)"

text \<open>
  The excerpt of one section (lines 193 to 212); \<open>body\<close> is \<^verbatim>\<open>section["content"]\<close>.
  The list \<^verbatim>\<open>sentences\<close> is computed and never read.
\<close>

definition refine :: "string \<Rightarrow> string" where
  "refine body =
     (let content' = strip (sub_spaces body)
      in if length content' > 500
         then (let refined = slice_to content' 400;
                   last_sentence_end =
                     max (max (rfind refined (CHR ''.'')) (rfind refined (CHR ''!'')))
                         (rfind refined (CHR ''?''))
               in if last_sentence_end > 200 then slice_to refined (last_sentence_end + 1)
                  else slice_to content' 300 @ ''...'')
         else content')"

definition format_sub_sections :: "scored_section list \<Rightarrow> analysis_entry list" where
  "format_sub_sections top_sections =
     map (\<lambda>s. \<lparr>sa_document = document s, refined_text = refine (content s),
               sa_page_number = page s + 1\<rparr>)
         top_sections"

subsection \<open>\<^verbatim>\<open>analyze\<close> and the call in \<^verbatim>\<open>main\<close>\<close>

text \<open>
  The world outside the program is a parameter: \<open>fitz_open\<close> is \<^verbatim>\<open>fitz.open\<close> on the
  files at hand, \<open>cos_sim query t\<close> is the cosine similarity of the embeddings of the
  query and of a section's text, and \<open>now\<close> is what \<^verbatim>\<open>time.strftime\<close> returns.
\<close>

text \<open>
  Lines 102 to 114. For an empty list of section texts \<^verbatim>\<open>encode\<close> returns an empty
  tensor, on which \<^verbatim>\<open>pytorch_cos_sim\<close> raises \<^verbatim>\<open>RuntimeError\<close>; otherwise there is one
  score for each section text.
\<close>

definition cosine_scores ::
  "(string \<Rightarrow> string \<Rightarrow> real) \<Rightarrow> string \<Rightarrow> string list \<Rightarrow> py_error + real list" where
  "cosine_scores cos_sim query section_texts =
     (if section_texts = [] then Inl RuntimeError
      else Inr (map (cos_sim query) section_texts))"

text \<open>Lines 99 to 135: embed, score every section, sort descending and stable.\<close>

definition rank_sections :: "(string \<Rightarrow> string \<Rightarrow> real) \<Rightarrow> string \<Rightarrow> string
    \<Rightarrow> pooled_section list \<Rightarrow> py_error + scored_section list" where
  "rank_sections cos_sim persona_role job_task all_sections =
     (let query = enhanced_query persona_role job_task;
          section_texts = map combined_text all_sections
      in case cosine_scores cos_sim query section_texts of
           Inl e \<Rightarrow> Inl e
         | Inr scores \<Rightarrow>
             Inr (rev (sort_key relevance
                    (rev (map (\<lambda>(score, s). score_section score s)
                            (zip scores all_sections))))))"

text \<open>Lines 91 to 138: parse, score, sort, select.\<close>

definition selected_sections ::
  "(path \<Rightarrow> py_error + fitz_doc) \<Rightarrow> (string \<Rightarrow> string \<Rightarrow> real)
     \<Rightarrow> path list \<Rightarrow> string \<Rightarrow> string \<Rightarrow> py_error + scored_section list" where
  "selected_sections fitz_open cos_sim doc_paths persona_role job_task =
     (let all_sections = parse_all fitz_open doc_paths
      in case rank_sections cos_sim persona_role job_task all_sections of
           Inl e \<Rightarrow> Inl e
         | Inr ranked_sections \<Rightarrow> Inr (select_diverse_sections ranked_sections 5))"

definition analyze ::
  "(path \<Rightarrow> py_error + fitz_doc) \<Rightarrow> (string \<Rightarrow> string \<Rightarrow> real) \<Rightarrow> string
     \<Rightarrow> path list \<Rightarrow> string \<Rightarrow> string \<Rightarrow> json \<Rightarrow> py_error + report" where
  "analyze fitz_open cos_sim now doc_paths persona_role job_task challenge_info =
     (case selected_sections fitz_open cos_sim doc_paths persona_role job_task of
        Inl e \<Rightarrow> Inl e
      | Inr selected \<Rightarrow>
          (let meta = [(''input_documents'', JArr (map (\<lambda>p. JStr (name p)) doc_paths)),
                       (''persona'', JStr persona_role),
                       (''job_to_be_done'', JStr job_task),
                       (''processing_timestamp'', JStr (slice_to now (- 3) @ ''Z''))]
           in Inr \<lparr>metadata = (if truthy challenge_info
                                 then meta @ [(''challenge_info'', challenge_info)] else meta),
                    extracted_sections = format_extracted_sections selected,
                    subsection_analysis = format_sub_sections selected\<rparr>))"

text \<open>
  Lines 245 to 255 of \<^verbatim>\<open>main\<close>: \<^verbatim>\<open>input_data.get('challenge_info', {})\<close> on the request
  object, handed to \<^verbatim>\<open>analyze\<close> with the paths, the role and the task read before.
\<close>

definition main_challenge_info :: "(string \<times> json) list \<Rightarrow> json" where
  "main_challenge_info input_data =
     (case map_of input_data ''challenge_info'' of None \<Rightarrow> JObj [] | Some v \<Rightarrow> v)"

definition main_analyze ::
  "(path \<Rightarrow> py_error + fitz_doc) \<Rightarrow> (string \<Rightarrow> string \<Rightarrow> real) \<Rightarrow> string
     \<Rightarrow> (string \<times> json) list \<Rightarrow> path list \<Rightarrow> string \<Rightarrow> string \<Rightarrow> py_error + report" where
  "main_analyze fitz_open cos_sim now input_data pdf_paths persona_role job_task =
     analyze fitz_open cos_sim now pdf_paths persona_role job_task
       (main_challenge_info input_data)"

section \<open>Auxiliary definitions for the proofs\<close>

text \<open>How many sections of document \<open>d\<close> a selection holds.\<close>

definition doc_total :: "string \<Rightarrow> scored_section list \<Rightarrow> nat" where
  "doc_total d sel = length (filter (\<lambda>s. document s = d) sel)"

text \<open>
  The invariant of the first loop: \<^verbatim>\<open>doc_count\<close> counts the selected sections of each
  document, no document has more than two, and the selection never outgrows
  \<^verbatim>\<open>max_sections\<close>.
\<close>

definition pass1_inv :: "int \<Rightarrow> scored_section list \<times> (string \<rightharpoonup> int) \<Rightarrow> bool" where
  "pass1_inv k st =
     (case st of (sel, dc) \<Rightarrow>
        (\<forall>d. get0 dc d = int (doc_total d sel) \<and> doc_total d sel \<le> 2) \<and>
        int (length sel) \<le> max 0 k)"

text \<open>
  A ranked list of four sections: three of \<^verbatim>\<open>a.pdf\<close>, then one of \<^verbatim>\<open>b.pdf\<close>, sorted
  descending by relevance.
\<close>

definition ex_ranked :: "scored_section list" where
  "ex_ranked =
     [\<lparr>level = ''H1'', heading_text = ''A1'', page = 0, content = ''x '',
       document = ''a.pdf'', relevance = 0.9\<rparr>,
      \<lparr>level = ''H1'', heading_text = ''A2'', page = 1, content = ''x '',
       document = ''a.pdf'', relevance = 0.8\<rparr>,
      \<lparr>level = ''H1'', heading_text = ''A3'', page = 2, content = ''x '',
       document = ''a.pdf'', relevance = 0.7\<rparr>,
      \<lparr>level = ''H1'', heading_text = ''B1'', page = 0, content = ''x '',
       document = ''b.pdf'', relevance = 0.6\<rparr>]"

text \<open>
  The configured keywords that occur in the lower-cased heading or the lower-cased body
  of a section, in the order of the list.
\<close>

definition keyword_hits :: "string \<Rightarrow> string \<Rightarrow> string list" where
  "keyword_hits title body =
     filter (\<lambda>keyword. py_in keyword (lower title) \<or> py_in keyword (lower body))
       boost_keywords"

text \<open>The invariant of the segmentation loops: every appended section has a body.\<close>

definition nonblank_sections :: "parse_state \<Rightarrow> bool" where
  "nonblank_sections st = list_all (\<lambda>s. strip (content s) \<noteq> []) (fst st)"

text \<open>
  A two-page document. Page 0 has a large bold line \<^verbatim>\<open>Introduction\<close>, a body line whose
  two spans come right to left, an image block and the line \<^verbatim>\<open>1. Scope\<close>; page 1 has a
  bold line \<^verbatim>\<open>Beach Bars\<close> and a body line. Both calls of \<^verbatim>\<open>get_text\<close> give the same
  blocks.
\<close>

definition ex_page0 :: "block list" where
  "ex_page0 =
     [Text_block
        [[\<lparr>span_text = ''Introduction'', span_size = 18, span_flags = 16, span_x0 = 72\<rparr>],
         [\<lparr>span_text = ''to Nice.'', span_size = 11, span_flags = 0, span_x0 = 120\<rparr>,
          \<lparr>span_text = ''Welcome'', span_size = 11, span_flags = 0, span_x0 = 72\<rparr>]],
      Image_block,
      Text_block
        [[\<lparr>span_text = ''1. Scope'', span_size = 11, span_flags = 0, span_x0 = 72\<rparr>]]]"

definition ex_page1 :: "block list" where
  "ex_page1 =
     [Text_block
        [[\<lparr>span_text = ''Beach Bars'', span_size = 14, span_flags = 16, span_x0 = 72\<rparr>],
         [\<lparr>span_text = ''Open late. '', span_size = 11, span_flags = 0, span_x0 = 72\<rparr>]]]"

definition ex_doc :: fitz_doc where
  "ex_doc =
     [\<lparr>get_text_dict = Inr ex_page0, get_text_flags = Inr ex_page0\<rparr>,
      \<lparr>get_text_dict = Inr ex_page1, get_text_flags = Inr ex_page1\<rparr>]"

text \<open>A one-page document with two spans, both of empty text.\<close>

definition ex_empty_spans :: "span list" where
  "ex_empty_spans =
     [\<lparr>span_text = '''', span_size = 11, span_flags = 0, span_x0 = 72\<rparr>,
      \<lparr>span_text = '''', span_size = 14, span_flags = 16, span_x0 = 90\<rparr>]"

definition ex_blank_doc :: fitz_doc where
  "ex_blank_doc =
     [\<lparr>get_text_dict = Inr [Text_block [ex_empty_spans]],
       get_text_flags = Inr [Text_block [ex_empty_spans]]\<rparr>]"

text \<open>
  A directory of three files: \<^verbatim>\<open>bad.pdf\<close> cannot be opened, \<^verbatim>\<open>blank.pdf\<close> is
  \<open>ex_blank_doc\<close>, every other name is \<open>ex_doc\<close>.
\<close>

definition ex_open :: "path \<Rightarrow> py_error + fitz_doc" where
  "ex_open p =
     (if name p = ''bad.pdf'' then Inl (FitzError ''cannot open broken document'')
      else if name p = ''blank.pdf'' then Inr ex_blank_doc
      else Inr ex_doc)"

definition ex_path :: "string \<Rightarrow> path" where
  "ex_path file = \<lparr>location = ''/app/input/PDFs/'' @ file, name = file\<rparr>"

text \<open>
  What a pattern matches, read declaratively: \<open>matches r w\<close> holds when the whole of \<open>w\<close>
  is a word of the regular expression \<open>r\<close>.
\<close>

inductive matches :: "regex \<Rightarrow> string \<Rightarrow> bool" where
  m_One: "matches One []"
| m_Atom: "list_ex (\<lambda>k. in_class k c) cs \<Longrightarrow> matches (Atom cs) [c]"
| m_Times: "matches r u \<Longrightarrow> matches s v \<Longrightarrow> matches (Times r s) (u @ v)"
| m_AltL: "matches r w \<Longrightarrow> matches (Alt r s) w"
| m_AltR: "matches s w \<Longrightarrow> matches (Alt r s) w"
| m_Star_Nil: "matches (Star r) []"
| m_Star_step: "matches r u \<Longrightarrow> matches (Star r) v \<Longrightarrow> matches (Star r) (u @ v)"







text \<open>
  For the excerpts: the sentence ends, line 193 of the source as a function of the body,
  and lines 202 to 206 as a function of the 400-character window.
\<close>

definition is_terminal :: "char \<Rightarrow> bool" where
  "is_terminal c = (c = CHR ''.'' \<or> c = CHR ''!'' \<or> c = CHR ''?'')"

definition collapse_and_strip :: "string \<Rightarrow> string" where
  "collapse_and_strip body = strip (sub_spaces body)"

definition last_sentence_end :: "string \<Rightarrow> int" where
  "last_sentence_end w =
     max (max (rfind w (CHR ''.'')) (rfind w (CHR ''!''))) (rfind w (CHR ''?''))"

text \<open>
  Python's \<^verbatim>\<open>s.split()\<close>: the maximal runs of characters that are not whitespace, in
  order. \<open>cur\<close> is the run being read.
\<close>

fun split_acc :: "string \<Rightarrow> string \<Rightarrow> string list" where
  "split_acc cur [] = (if cur = [] then [] else [cur])"
| "split_acc cur (c # cs) =
     (if py_isspace c then (if cur = [] then split_acc [] cs else cur # split_acc [] cs)
      else split_acc (cur @ [c]) cs)"

definition py_split :: "string \<Rightarrow> string list" where
  "py_split s = split_acc [] s"

text \<open>\<^verbatim>\<open>s.rstrip()\<close>\<close>

definition rstrip :: "string \<Rightarrow> string" where
  "rstrip s = rev (dropWhile py_isspace (rev s))"

text \<open>
  Three bodies. The first has 250 letters, a full stop, a run of whitespace and 300
  more letters: its last sentence end within the first 400 characters is at index 250.
  The second has its only full stop at index 200. The third is short.
\<close>

definition ex_sentence_body :: string where
  "ex_sentence_body =
     replicate 250 (CHR ''a'') @ ''.  '' @ replicate 300 (CHR ''b'') @ '' ''"

definition ex_fallback_body :: string where
  "ex_fallback_body = replicate 200 (CHR ''a'') @ ''. '' @ replicate 350 (CHR ''b'')"

definition ex_short_body :: string where
  "ex_short_body = ''  Open   late.  ''"

text \<open>
  The run used as an example: the one readable file \<^verbatim>\<open>guide.pdf\<close>, every cosine score
  0.5. Its second section holds the keywords \<^verbatim>\<open>beach\<close> and \<^verbatim>\<open>bar\<close>, so it ranks first.
  \<open>ex_report extra\<close> is the report of that run, with \<open>extra\<close> at the end of the metadata.
\<close>

definition ex_selected_run :: "scored_section list" where
  "ex_selected_run =
     [\<lparr>level = ''H1'', heading_text = ''Beach Bars'', page = 1, content = ''Open late. '',
       document = ''guide.pdf'', relevance = 6305039478318694 / 2 ^ 53\<rparr>,
      \<lparr>level = ''title'', heading_text = ''Introduction'', page = 0,
       content = ''Introduction Welcome to Nice. '', document = ''guide.pdf'',
       relevance = 1 / 2\<rparr>]"

definition ex_report :: "(string \<times> json) list \<Rightarrow> report" where
  "ex_report extra =
     \<lparr>metadata =
        [(''input_documents'', JArr [JStr ''guide.pdf'']),
         (''persona'', JStr ''Travel Planner''),
         (''job_to_be_done'', JStr ''Plan a trip''),
         (''processing_timestamp'', JStr ''2025-07-28T10:00:00.Z'')] @ extra,
      extracted_sections =
        [\<lparr>es_document = ''guide.pdf'', section_title = ''Beach Bars'',
          importance_rank = 1, es_page_number = 2\<rparr>,
         \<lparr>es_document = ''guide.pdf'', section_title = ''Introduction'',
          importance_rank = 2, es_page_number = 1\<rparr>],
      subsection_analysis =
        [\<lparr>sa_document = ''guide.pdf'', refined_text = ''Open late.'', sa_page_number = 2\<rparr>,
         \<lparr>sa_document = ''guide.pdf'', refined_text = ''Introduction Welcome to Nice.'',
          sa_page_number = 1\<rparr>]\<rparr>"

section \<open>The diverse top-k selector\<close>

lemma pass1_step_pair:
  "pass1_step k (sel, dc) x =
     (if get0 dc (document x) < 2 \<and> int (length sel) < k
      then (sel @ [x], dc(document x \<mapsto> get0 dc (document x) + 1)) else (sel, dc))"
  by (simp add: pass1_step_def Let_def)

text \<open>The first loop only appends, and what it appends it takes in ranked order.\<close>

lemma pass1_step_subseq:
  "\<exists>picks. fst (foldl (pass1_step k) (sel, dc) xs) = sel @ picks \<and> subseq picks xs"
proof (induction xs arbitrary: sel dc)
  case Nil
  then show ?case by simp
next
  case (Cons x xs)
  show ?case
  proof (cases "get0 dc (document x) < 2 \<and> int (length sel) < k")
    case True
    from Cons.IH[of "sel @ [x]" "dc(document x \<mapsto> get0 dc (document x) + 1)"]
    obtain picks where
      "fst (foldl (pass1_step k) (sel @ [x], dc(document x \<mapsto> get0 dc (document x) + 1)) xs)
         = (sel @ [x]) @ picks"
      "subseq picks xs"
      by blast
    with True show ?thesis
      by (intro exI[of _ "x # picks"]) (simp add: pass1_step_pair)
  next
    case False
    from Cons.IH[of sel dc] obtain picks where
      "fst (foldl (pass1_step k) (sel, dc) xs) = sel @ picks" "subseq picks xs" by blast
    with False show ?thesis
      by (intro exI[of _ picks]) (auto simp add: pass1_step_pair)
  qed
qed

lemma pass1_subseq: "subseq (fst (pass1 k ranked)) ranked"
  using pass1_step_subseq[of k "[]" Map.empty ranked] by (auto simp: pass1_def)

lemma pass1_inv_step: "pass1_inv k st \<Longrightarrow> pass1_inv k (pass1_step k st x)"
  by (cases st)
     (auto simp: pass1_inv_def pass1_step_def get0_def doc_total_def Let_def
           split: option.splits if_splits)

lemma pass1_inv_foldl: "pass1_inv k st \<Longrightarrow> pass1_inv k (foldl (pass1_step k) st xs)"
  by (induction xs arbitrary: st) (simp_all add: pass1_inv_step)

lemma pass1_inv_pass1: "pass1_inv k (pass1 k ranked)"
  unfolding pass1_def by (rule pass1_inv_foldl) (simp add: pass1_inv_def get0_def doc_total_def)

lemma pass1_length: "int (length (fst (pass1 k ranked))) \<le> max 0 k"
  using pass1_inv_pass1[of k ranked] by (auto simp: pass1_inv_def split: prod.splits)

text \<open>
  The second loop appends, in ranked order, sections that are not yet selected.
\<close>

lemma pass2_fill:
  "\<exists>fill. pass2 k sel xs = sel @ fill \<and> subseq fill xs \<and> set fill \<inter> set sel = {}"
proof (induction xs arbitrary: sel)
  case Nil
  then show ?case by simp
next
  case (Cons x xs)
  show ?case
  proof (cases "int (length sel) \<ge> k")
    case True
    then show ?thesis by (intro exI[of _ "[]"]) simp
  next
    case stop: False
    show ?thesis
    proof (cases "x \<in> set sel")
      case True
      from Cons.IH[of sel] obtain fill where
        "pass2 k sel xs = sel @ fill" "subseq fill xs" "set fill \<inter> set sel = {}" by blast
      with True stop show ?thesis by (intro exI[of _ fill]) auto
    next
      case False
      from Cons.IH[of "sel @ [x]"] obtain fill where
        "pass2 k (sel @ [x]) xs = (sel @ [x]) @ fill" "subseq fill xs"
        "set fill \<inter> set (sel @ [x]) = {}" by blast
      with False stop show ?thesis by (intro exI[of _ "x # fill"]) auto
    qed
  qed
qed

lemma pass2_length:
  "int (length sel) \<le> max 0 k \<Longrightarrow> int (length (pass2 k sel xs)) \<le> max 0 k"
  by (induction xs arbitrary: sel) auto

lemma slice_to_bounded: "int (length xs) \<le> max 0 k \<Longrightarrow> slice_to xs k = xs"
  by (auto simp: slice_to_def)

text \<open>The final slice \<^verbatim>\<open>selected[:max_sections]\<close> never cuts anything.\<close>

lemma select_is_pass2:
  "select_diverse_sections ranked k = pass2 k (fst (pass1 k ranked)) ranked"
  unfolding select_diverse_sections_def
  by (intro slice_to_bounded pass2_length pass1_length)

lemma ex_selected:
  "select_diverse_sections ex_ranked 5 =
     [\<lparr>level = ''H1'', heading_text = ''A1'', page = 0, content = ''x '',
       document = ''a.pdf'', relevance = 0.9\<rparr>,
      \<lparr>level = ''H1'', heading_text = ''A2'', page = 1, content = ''x '',
       document = ''a.pdf'', relevance = 0.8\<rparr>,
      \<lparr>level = ''H1'', heading_text = ''B1'', page = 0, content = ''x '',
       document = ''b.pdf'', relevance = 0.6\<rparr>,
      \<lparr>level = ''H1'', heading_text = ''A3'', page = 2, content = ''x '',
       document = ''a.pdf'', relevance = 0.7\<rparr>]"
  by (simp add: select_diverse_sections_def ex_ranked_def pass1_def pass1_step_pair get0_def
        slice_to_def)

text \<open>
  C2, as stated, fails. On the ranked list \<open>ex_ranked\<close> (sorted descending) with
  \<^verbatim>\<open>max_sections = 5\<close>, the first loop admits A1, A2 and B1 and skips A3 (the cap of two
  for \<^verbatim>\<open>a.pdf\<close>); the second loop then appends A3 after B1. So B1 (input index 3)
  precedes A3 (input index 2) in the output: the output is not a subsequence of the
  input.
\<close>

theorem select_ranked_order_counterexample:
  "sorted (rev (map relevance ex_ranked)) \<and> distinct ex_ranked \<and>
   select_diverse_sections ex_ranked 5 ! 2 = ex_ranked ! 3 \<and>
   select_diverse_sections ex_ranked 5 ! 3 = ex_ranked ! 2 \<and>
   \<not> subseq (select_diverse_sections ex_ranked 5) ex_ranked"
  unfolding ex_selected by (simp add: ex_ranked_def)

text \<open>
  C2, amended. The output is the sections admitted by the first loop followed by the
  sections the second loop fills in; each of the two runs is an order-preserving
  subsequence of the ranked input, and no filled-in section was already admitted. Ranked
  order holds within each run, not across the two.
\<close>

theorem select_two_ranked_runs:
  "\<exists>fill. select_diverse_sections ranked max_sections = fst (pass1 max_sections ranked) @ fill
     \<and> subseq (fst (pass1 max_sections ranked)) ranked
     \<and> subseq fill ranked
     \<and> set fill \<inter> set (fst (pass1 max_sections ranked)) = {}"
  using pass2_fill[of max_sections "fst (pass1 max_sections ranked)" ranked]
    pass1_subseq[of max_sections ranked]
  unfolding select_is_pass2 by blast

text \<open>
  C3. The selector returns at most \<^verbatim>\<open>max_sections\<close> sections (none when
  \<^verbatim>\<open>max_sections\<close> is not positive), and the first loop admits at most two sections of
  any one document. The statement holds for every input list, so also for every prefix
  of the ranked list, that is at every moment of the first loop.
\<close>

theorem select_bounded_and_pass1_capped:
  "length (select_diverse_sections ranked max_sections) \<le> nat max_sections \<and>
   (\<forall>d. length (filter (\<lambda>s. document s = d) (fst (pass1 max_sections ranked))) \<le> 2)"
proof -
  have "int (length (select_diverse_sections ranked max_sections)) \<le> max 0 max_sections"
    unfolding select_is_pass2 by (intro pass2_length pass1_length)
  moreover have
    "\<forall>d. length (filter (\<lambda>s. document s = d) (fst (pass1 max_sections ranked))) \<le> 2"
    using pass1_inv_pass1[of max_sections ranked]
    by (auto simp: pass1_inv_def doc_total_def split: prod.splits)
  ultimately show ?thesis by auto
qed

section \<open>Rounding in float addition\<close>

lemma round_half_even_error: "\<bar>of_int (round_half_even y) - y\<bar> \<le> 1 / 2"
proof -
  define f where "f = \<lfloor>y\<rfloor>"
  define d where "d = y - of_int f"
  have d: "0 \<le> d" "d < 1" unfolding d_def f_def by linarith+
  have y: "y = of_int f + d" by (simp add: d_def)
  have r: "round_half_even y =
      (if d < 1 / 2 then f else if 1 / 2 < d then f + 1 else if even f then f else f + 1)"
    by (simp add: round_half_even_def Let_def f_def d_def)
  show ?thesis
  proof (cases "d < 1 / 2")
    case True
    with d r y show ?thesis by simp
  next
    case False
    show ?thesis
    proof (cases "1 / 2 < d")
      case True
      with d r y show ?thesis by simp
    next
      case half: False
      with False have "d = 1 / 2" by simp
      with r y show ?thesis by (cases "even f") simp_all
    qed
  qed
qed

text \<open>Rounding moves a number by at most half a unit in the last place.\<close>

lemma round_to_double_error:
  "\<bar>round_to_double x - x\<bar> \<le> 2 powi (ulp_exponent \<bar>x\<bar>) / 2"
proof -
  define p :: real where "p = 2 powi (ulp_exponent \<bar>x\<bar>)"
  have p: "0 < p" by (simp add: p_def)
  define m where "m = round_half_even (\<bar>x\<bar> / p)"
  define t where "t = of_int m - \<bar>x\<bar> / p"
  have t: "\<bar>t\<bar> \<le> 1 / 2"
    unfolding t_def m_def by (rule round_half_even_error)
  have tp: "t * p = of_int m * p - \<bar>x\<bar>"
    using p by (simp add: t_def left_diff_distrib)
  have "round_to_double x = sgn x * (of_int m * p)"
    by (simp add: round_to_double_def Let_def p_def m_def mult.assoc)
  moreover have "x = sgn x * \<bar>x\<bar>" by (simp add: sgn_mult_abs)
  ultimately have "round_to_double x - x = sgn x * (t * p)"
    by (simp add: tp right_diff_distrib)
  then have "\<bar>round_to_double x - x\<bar> = \<bar>sgn x\<bar> * (\<bar>t\<bar> * p)"
    using p by (simp add: abs_mult)
  also have "\<dots> \<le> 1 * (1 / 2 * p)"
    using t p by (intro mult_mono) (auto simp: sgn_if)
  finally show ?thesis by (simp add: p_def)
qed

lemma ulp_exponent_step:
  fixes a :: real
  assumes "e = - 1074 \<or> 2 powi (e + 52) \<le> a"
  shows "foldl (\<lambda>e s. if 2 powi (e + s + 52) \<le> a then e + s else e) e ss = - 1074
       \<or> 2 powi (foldl (\<lambda>e s. if 2 powi (e + s + 52) \<le> a then e + s else e) e ss + 52) \<le> a"
  using assms by (induction ss arbitrary: e) auto

lemma ulp_exponent_low:
  "ulp_exponent a = - 1074 \<or> 2 powi (ulp_exponent a + 52) \<le> a"
  unfolding ulp_exponent_def by (rule ulp_exponent_step) simp

lemma ulp_exponent_le:
  assumes "a < 2 powi (k + 53)" and "- 1074 \<le> k"
  shows "ulp_exponent a \<le> k"
proof (rule ccontr)
  assume "\<not> ulp_exponent a \<le> k"
  then have gt: "k + 53 \<le> ulp_exponent a + 52" by simp
  with assms(2) have "ulp_exponent a \<noteq> - 1074" by simp
  with ulp_exponent_low[of a] have "2 powi (ulp_exponent a + 52) \<le> a" by simp
  moreover have "(2::real) powi (k + 53) \<le> 2 powi (ulp_exponent a + 52)"
    using gt by (intro power_int_increasing) auto
  ultimately show False using assms(1) by simp
qed

text \<open>Below 4 a float addition is off by at most \<open>2 ^ - 52\<close>.\<close>

lemma float_add_error:
  assumes "\<bar>x + y\<bar> < 4"
  shows "\<bar>float_add x y - (x + y)\<bar> \<le> 1 / 2 ^ 52"
proof -
  have "\<bar>x + y\<bar> < 2 powi (- 51 + 53)" using assms by simp
  then have "ulp_exponent \<bar>x + y\<bar> \<le> - 51" by (rule ulp_exponent_le) simp
  then have "(2::real) powi (ulp_exponent \<bar>x + y\<bar>) \<le> 2 powi (- 51)"
    by (intro power_int_increasing) auto
  then have "(2::real) powi (ulp_exponent \<bar>x + y\<bar>) / 2 \<le> 1 / 2 ^ 52"
    by (simp add: power_int_minus_divide)
  with round_to_double_error[of "x + y"] show ?thesis
    unfolding float_add_def by linarith
qed

text \<open>The literal \<^verbatim>\<open>0.1\<close> is the double \<^verbatim>\<open>0x3FB999999999999A\<close>.\<close>

lemma point_one_value: "point_one = 3602879701896397 / 2 ^ 55"
  unfolding point_one_def by code_simp

lemma point_one_close:
  "\<bar>point_one - 1 / 10\<bar> \<le> 1 / 2 ^ 57" "0 < point_one" "point_one < 11 / 100"
  unfolding point_one_value by simp_all

lemma boost_iter_error:
  assumes "\<bar>c\<bar> \<le> 3 / 2" and "n \<le> 20"
  shows "\<bar>((\<lambda>r. float_add r point_one) ^^ n) c - (c + real n * point_one)\<bar>
           \<le> real n / 2 ^ 52"
  using assms(2)
proof (induction n)
  case 0
  then show ?case by simp
next
  case (Suc n)
  define r where "r = ((\<lambda>r. float_add r point_one) ^^ n) c"
  define b where "b = real n * point_one"
  define u :: real where "u = real n / 2 ^ 52"
  from Suc have ih: "\<bar>r - (c + b)\<bar> \<le> u" by (simp add: r_def b_def u_def)
  have n: "real n \<le> 19" using Suc.prems by simp
  have "u \<le> 19 / 2 ^ 52" unfolding u_def using n by (intro divide_right_mono) auto
  then have small: "u \<le> 1 / 100" by simp
  have b0: "0 \<le> b" unfolding b_def using point_one_close(2) by simp
  have "b \<le> 19 * (11 / 100)"
    unfolding b_def using n point_one_close(2,3) by (intro mult_mono) auto
  then have b3: "b \<le> 209 / 100" by simp
  from ih have r: "r \<le> c + b + u" "c + b - u \<le> r" by linarith+
  from assms(1) have c: "- (3 / 2) \<le> c" "c \<le> 3 / 2" by linarith+
  have "- 4 < r + point_one" "r + point_one < 4"
    using r c b0 b3 small point_one_close(2,3) by linarith+
  then have "\<bar>r + point_one\<bar> < 4" by (simp add: abs_less_iff)
  then have step: "\<bar>float_add r point_one - (r + point_one)\<bar> \<le> 1 / 2 ^ 52"
    by (rule float_add_error)
  have "real (Suc n) * point_one = b + point_one" by (simp add: b_def algebra_simps)
  moreover have "real (Suc n) / 2 ^ 52 = u + 1 / 2 ^ 52"
    by (simp add: u_def add_divide_distrib)
  moreover have "\<bar>float_add r point_one - (c + (b + point_one))\<bar> \<le> u + 1 / 2 ^ 52"
    using step ih by linarith
  ultimately show ?case by (simp add: r_def)
qed

text \<open>
  Python's own sums: \<^verbatim>\<open>0.5 + 0.1 + 0.1\<close> is the double \<^verbatim>\<open>0.7\<close>, and
  \<^verbatim>\<open>0.5 + 0.1 + 0.1 + 0.1\<close> is \<^verbatim>\<open>0.7999999999999999\<close>, one unit below the double
  \<^verbatim>\<open>0.8\<close>.
\<close>

lemma two_adds:
  "float_add (float_add (1 / 2) point_one) point_one = 6305039478318694 / 2 ^ 53"
  unfolding point_one_def by code_simp

lemma third_add:
  "float_add (6305039478318694 / 2 ^ 53) point_one = 7205759403792793 / 2 ^ 53"
  unfolding point_one_def by code_simp

lemma three_adds:
  "float_add (float_add (float_add (1 / 2) point_one) point_one) point_one
     = 7205759403792793 / 2 ^ 53"
  by (simp only: two_adds third_add)

section \<open>The keyword boost\<close>

lemma foldl_boost_step:
  "foldl (boost_step t c) r ks
     = ((\<lambda>r. float_add r point_one) ^^ length (filter (\<lambda>k. py_in k t \<or> py_in k c) ks)) r"
proof (induction ks arbitrary: r)
  case Nil
  then show ?case by simp
next
  case (Cons k ks)
  show ?case
    using Cons[of r] Cons[of "float_add r point_one"]
      funpow_swap1[of "\<lambda>r. float_add r point_one"
        "length (filter (\<lambda>k. py_in k t \<or> py_in k c) ks)" r]
    by (simp add: boost_step_def)
qed

lemma relevance_score_section:
  "relevance (score_section cs s)
     = ((\<lambda>r. float_add r point_one) ^^ length (keyword_hits (heading_text s) (content s))) cs"
  by (simp add: score_section_def Let_def foldl_boost_step keyword_hits_def)

lemma keyword_hits_le: "length (keyword_hits t b) \<le> 20"
proof -
  have "length (keyword_hits t b) \<le> length boost_keywords"
    unfolding keyword_hits_def by (rule length_filter_le)
  then show ?thesis by (simp add: boost_keywords_def)
qed

lemma lower_beach_bars: "lower ''Beach Bars'' = ''beach bars''"
  by code_simp

lemma lower_open_late: "lower ''Open late. '' = ''open late. ''"
  by code_simp

lemma lower_useful_tips: "lower ''Useful tips. '' = ''useful tips. ''"
  by code_simp

lemma hits_beach_bars: "keyword_hits ''Beach Bars'' ''Open late. '' = [''beach'', ''bar'']"
  unfolding keyword_hits_def lower_beach_bars lower_open_late
  by (simp add: boost_keywords_def)

lemma hits_beach_bars_tips:
  "keyword_hits ''Beach Bars'' ''Useful tips. '' = [''beach'', ''bar'', ''tips'']"
  unfolding keyword_hits_def lower_beach_bars lower_useful_tips
  by (simp add: boost_keywords_def)

lemma hits_introduction:
  "keyword_hits ''Introduction'' ''Introduction Welcome to Nice. '' = []"
  unfolding keyword_hits_def boost_keywords_def by code_simp

text \<open>
  C1, as stated, fails. A section headed \<^verbatim>\<open>Beach Bars\<close> contains the two keywords
  \<^verbatim>\<open>beach\<close> and \<^verbatim>\<open>bar\<close>; the loop over \<open>boost_keywords\<close> adds 0.1 at each, so a cosine
  score of 0.5 becomes the double 0.7, more than 0.5 + 0.1.
\<close>

theorem boost_once_counterexample:
  "\<not> relevance (score_section 0.5
         \<lparr>level = ''H1'', heading_text = ''Beach Bars'', page = 0,
          content = ''Open late. '', document = ''a.pdf''\<rparr>) \<le> 0.5 + 0.1"
  by (simp add: relevance_score_section hits_beach_bars two_adds)

text \<open>
  C1, amended. The boost is cumulative: the final relevance of a section is its cosine
  score after one float addition of 0.1 for each of the twenty configured keywords that
  occurs, as a substring of the lower-cased heading or of the lower-cased body. With \<open>n\<close>
  such keywords and a cosine score between -1.5 and 1.5, it is within \<open>n * 2 ^ - 51\<close> of
  the cosine score plus \<open>n / 10\<close>; so it exceeds the cosine score by at most
  \<open>2 + 2 ^ - 46\<close>.
\<close>

theorem boost_per_matching_keyword:
  "relevance (score_section cosine_score s)
     = ((\<lambda>r. float_add r point_one) ^^ length (keyword_hits (heading_text s) (content s)))
         cosine_score
   \<and> length (keyword_hits (heading_text s) (content s)) \<le> 20
   \<and> (\<bar>cosine_score\<bar> \<le> 3 / 2 \<longrightarrow>
        \<bar>relevance (score_section cosine_score s)
           - (cosine_score + real (length (keyword_hits (heading_text s) (content s))) / 10)\<bar>
          \<le> real (length (keyword_hits (heading_text s) (content s))) / 2 ^ 51
        \<and> relevance (score_section cosine_score s) \<le> cosine_score + 2 + 1 / 2 ^ 46)"
proof -
  define n where "n = length (keyword_hits (heading_text s) (content s))"
  define R where "R = relevance (score_section cosine_score s)"
  have R: "R = ((\<lambda>r. float_add r point_one) ^^ n) cosine_score"
    by (simp add: R_def n_def relevance_score_section)
  have n: "n \<le> 20" unfolding n_def by (rule keyword_hits_le)
  have bound: "\<bar>R - (cosine_score + real n / 10)\<bar> \<le> real n / 2 ^ 51
      \<and> R \<le> cosine_score + 2 + 1 / 2 ^ 46" if c: "\<bar>cosine_score\<bar> \<le> 3 / 2"
  proof -
    have e1: "\<bar>R - (cosine_score + real n * point_one)\<bar> \<le> real n / 2 ^ 52"
      unfolding R using c n by (rule boost_iter_error)
    have "real n * point_one - real n / 10 = real n * (point_one - 1 / 10)"
      by (simp add: right_diff_distrib)
    then have "\<bar>real n * point_one - real n / 10\<bar> = real n * \<bar>point_one - 1 / 10\<bar>"
      by (simp add: abs_mult)
    also have "\<dots> \<le> real n * (1 / 2 ^ 57)"
      using point_one_close(1) by (intro mult_left_mono) auto
    finally have e2: "\<bar>real n * point_one - real n / 10\<bar> \<le> real n / 2 ^ 57" by simp
    have "real n / 2 ^ 52 + real n / 2 ^ 57 \<le> real n / 2 ^ 51" by simp
    with e1 e2 have close: "\<bar>R - (cosine_score + real n / 10)\<bar> \<le> real n / 2 ^ 51"
      by linarith
    have "real n \<le> 20" using n by simp
    then have "real n / 10 \<le> 2" "real n / 2 ^ 51 \<le> 1 / 2 ^ 46" by simp_all
    with close have "R \<le> cosine_score + 2 + 1 / 2 ^ 46" by linarith
    with close show ?thesis by simp
  qed
  show ?thesis
    using R n bound unfolding R_def n_def by blast
qed

theorem boost_per_matching_keyword_witness:
  "relevance (score_section (1 / 2)
       \<lparr>level = ''H1'', heading_text = ''Beach Bars'', page = 0,
        content = ''Useful tips. '', document = ''a.pdf''\<rparr>) = 7205759403792793 / 2 ^ 53
   \<and> \<bar>7205759403792793 / 2 ^ 53 - (1 / 2 + 3 / 10)\<bar> \<le> (3 / 2 ^ 51 :: real)
   \<and> (7205759403792793 / 2 ^ 53 :: real) < 1 / 2 + 3 / 10"
proof -
  have "relevance (score_section (1 / 2)
       \<lparr>level = ''H1'', heading_text = ''Beach Bars'', page = 0,
        content = ''Useful tips. '', document = ''a.pdf''\<rparr>)
      = float_add (float_add (float_add (1 / 2) point_one) point_one) point_one"
    using boost_per_matching_keyword
      [of "1 / 2" "\<lparr>level = ''H1'', heading_text = ''Beach Bars'', page = 0,
                    content = ''Useful tips. '', document = ''a.pdf''\<rparr>"]
    by (simp add: hits_beach_bars_tips)
  then have "relevance (score_section (1 / 2)
       \<lparr>level = ''H1'', heading_text = ''Beach Bars'', page = 0,
        content = ''Useful tips. '', document = ''a.pdf''\<rparr>) = 7205759403792793 / 2 ^ 53"
    by (simp only: three_adds)
  moreover have "\<bar>7205759403792793 / 2 ^ 53 - (1 / 2 + 3 / 10)\<bar> \<le> (3 / 2 ^ 51 :: real)"
    by simp
  moreover have "(7205759403792793 / 2 ^ 53 :: real) < 1 / 2 + 3 / 10"
    by simp
  ultimately show ?thesis by blast
qed

section \<open>The section segmenter\<close>

lemma for_each_preserves:
  assumes step: "\<And>st x st'. body st x = Inr st' \<Longrightarrow> P st \<Longrightarrow> P st'"
  shows "for_each body xs st = Inr st' \<Longrightarrow> P st \<Longrightarrow> P st'"
proof (induction xs arbitrary: st)
  case Nil
  then show ?case by simp
next
  case (Cons x xs)
  then obtain st1 where b: "body st x = Inr st1" and r: "for_each body xs st1 = Inr st'"
    by (auto split: sum.splits)
  from step[OF b Cons.prems(2)] have "P st1" .
  with Cons.IH[OF r] show ?case .
qed

text \<open>A loop over a list that holds an element at which the body always raises, raises.\<close>

lemma for_each_raises:
  assumes "x \<in> set xs" and "\<And>st. \<exists>e. body st x = Inl e"
  shows "\<exists>e. for_each body xs st = Inl e"
  using assms(1)
proof (induction xs arbitrary: st)
  case Nil
  then show ?case by simp
next
  case (Cons y ys)
  show ?case
  proof (cases "body st y")
    case (Inl e)
    then show ?thesis by simp
  next
    case (Inr st1)
    have "y \<noteq> x" using assms(2)[of st] Inr by auto
    with Cons.prems have "x \<in> set ys" by simp
    from Cons.IH[OF this, of st1] Inr show ?thesis by simp
  qed
qed

lemma close_heading_nonblank:
  "nonblank_sections st \<Longrightarrow> list_all (\<lambda>s. strip (content s) \<noteq> []) (close_heading st)"
  by (cases st) (simp add: nonblank_sections_def close_heading_def)

lemma process_line_nonblank:
  "process_line avg n st l = Inr st' \<Longrightarrow> nonblank_sections st \<Longrightarrow> nonblank_sections st'"
  using close_heading_nonblank[of st]
  by (auto simp: process_line_def Let_def nonblank_sections_def split: if_splits list.splits)

lemma process_block_nonblank:
  assumes "process_block avg n st b = Inr st'" and "nonblank_sections st"
  shows "nonblank_sections st'"
proof (cases b)
  case Image_block
  with assms show ?thesis by simp
next
  case (Text_block ls)
  with assms show ?thesis
    using for_each_preserves[of "process_line avg n" nonblank_sections ls st st']
      process_line_nonblank
    by auto
qed

lemma process_page_nonblank:
  assumes "process_page avg st np = Inr st'" and "nonblank_sections st"
  shows "nonblank_sections st'"
proof -
  obtain n p where np: "np = (n, p)" by (cases np)
  with assms(1) obtain blocks where "for_each (process_block avg n) blocks st = Inr st'"
    by (auto simp: process_page_def split: sum.splits)
  then show ?thesis
    using for_each_preserves[of "process_block avg n" nonblank_sections blocks st st']
      process_block_nonblank assms(2)
    by blast
qed

lemma extract_body_nonblank:
  assumes "extract_body fitz_open p = Inr sections"
  shows "list_all (\<lambda>s. strip (content s) \<noteq> []) sections"
proof -
  from assms obtain doc avg st where
    run: "for_each (process_page avg) (py_enumerate doc) ([], seed_heading) = Inr st"
    and res: "sections = close_heading st"
    by (auto simp: extract_body_def split: sum.splits)
  have "nonblank_sections ([], seed_heading)" by (simp add: nonblank_sections_def)
  with run have "nonblank_sections st"
    using for_each_preserves[of "process_page avg" nonblank_sections "py_enumerate doc"
        "([], seed_heading)" st]
      process_page_nonblank
    by blast
  with res show ?thesis by (simp add: close_heading_nonblank)
qed

lemma extract_structure_nonblank:
  "list_all (\<lambda>s. strip (content s) \<noteq> []) (extract_structure fitz_open p)"
  by (auto simp: extract_structure_def extract_body_nonblank split: sum.splits)

lemma extract_structure_seeded:
  "fitz_open p = Inr doc \<Longrightarrow> calculate_average_font_size doc = Inr avg \<Longrightarrow>
     extract_structure fitz_open p =
       (case for_each (process_page avg) (py_enumerate doc)
               ([], \<lparr>level = ''title'', heading_text = ''Introduction'', page = 0,
                     content = ''''\<rparr>) of
          Inl e \<Rightarrow> [] | Inr st \<Rightarrow> close_heading st)"
  by (simp add: extract_structure_def extract_body_def seed_heading_def split: sum.splits)

lemma line_text_nonempty_spans:
  "strip (join_space (map span_text (sort_key span_x0 l))) \<noteq> [] \<Longrightarrow> sort_key span_x0 l \<noteq> []"
  by (auto simp: strip_def)

lemma seed_literal_never_opens:
  assumes "strip (join_space (map span_text (sort_key span_x0 l))) = ''Introduction''"
  shows "process_line avg n st l
           = Inr (fst st, (snd st)\<lparr>content := content (snd st) @ ''Introduction ''\<rparr>)"
proof -
  from assms have "sort_key span_x0 l \<noteq> []"
    using line_text_nonempty_spans[of l] by simp
  then obtain a rest where "sort_key span_x0 l = a # rest"
    by (cases "sort_key span_x0 l") auto
  with assms show ?thesis
    by (simp add: process_line_def Let_def)
qed

lemma blank_current_discarded:
  "strip (content cur) = [] \<Longrightarrow> close_heading (sections, cur) = sections"
  by (simp add: close_heading_def)

lemma process_line_sections:
  "process_line avg n (sections, cur) l = Inr (sections', cur') \<Longrightarrow>
     sections' = sections \<or> (sections' = sections @ [cur] \<and> strip (content cur) \<noteq> [])"
  by (auto simp: process_line_def Let_def close_heading_def split: if_splits list.splits)

text \<open>The example document, run by hand.\<close>

lemmas eval_parser =
  process_line_def Let_def strip_def py_isspace_def py_isdigit_def is_heading_def
  is_heading_pattern_def patterns_def pattern_decimal_def pattern_roman_def
  pattern_letter_def sep_then_spaces_def Plus_def Opt_def process_page_def
  py_enumerate_def close_heading_def seed_heading_def

lemma ex_avg: "calculate_average_font_size ex_doc = Inr (365 / 28)"
  by (simp add: calculate_average_font_size_def ex_doc_def ex_page0_def ex_page1_def
        collect_page_def Let_def)

lemma ex_body:
  "for_each (process_page (365 / 28)) (py_enumerate ex_doc) ([], seed_heading)
     = Inr ([\<lparr>level = ''title'', heading_text = ''Introduction'', page = 0,
              content = ''Introduction Welcome to Nice. ''\<rparr>],
            \<lparr>level = ''H1'', heading_text = ''Beach Bars'', page = 1,
             content = ''Open late. ''\<rparr>)"
  by (simp add: ex_doc_def ex_page0_def ex_page1_def eval_parser upt_rec)

lemma ex_sections:
  "extract_structure ex_open (ex_path ''guide.pdf'')
     = [\<lparr>level = ''title'', heading_text = ''Introduction'', page = 0,
         content = ''Introduction Welcome to Nice. ''\<rparr>,
        \<lparr>level = ''H1'', heading_text = ''Beach Bars'', page = 1,
         content = ''Open late. ''\<rparr>]"
  by (simp add: extract_structure_def extract_body_def ex_open_def ex_path_def ex_avg ex_body)
     (simp add: close_heading_def strip_def py_isspace_def)

lemma ex_strip_intro: "strip ''Introduction'' = ''Introduction''"
  by (simp add: strip_def py_isspace_def)

lemma strip_empty: "strip [] = []"
  by (simp add: strip_def)

lemma ex_strip_body0: "strip ''Introduction Welcome to Nice. '' = ''Introduction Welcome to Nice.''"
  by (simp add: strip_def py_isspace_def)

lemma ex_strip_body1: "strip ''Open late. '' = ''Open late.''"
  by (simp add: strip_def py_isspace_def)

text \<open>
  C6. Every section that \<^verbatim>\<open>extract_structure\<close> returns has a body that is not blank.
  When the document opens and its average font size is computed, the result is the run
  of the line loop from the seed \<^verbatim>\<open>{level: title, text: Introduction, page: 0}\<close> with
  an empty body, closed at the end. A line whose text is exactly \<^verbatim>\<open>Introduction\<close> is
  appended to the body of the current section, whatever its font. A current section with
  a blank body is dropped when it is closed, and a line never appends anything but the
  current section, and that only when its body is not blank.
\<close>

theorem emitted_sections_nonblank:
  "(\<forall>s \<in> set (extract_structure fitz_open pdf_path). strip (content s) \<noteq> [])
   \<and> (fitz_open pdf_path = Inr doc \<and> calculate_average_font_size doc = Inr avg \<longrightarrow>
        extract_structure fitz_open pdf_path =
          (case for_each (process_page avg) (py_enumerate doc)
                  ([], \<lparr>level = ''title'', heading_text = ''Introduction'', page = 0,
                        content = ''''\<rparr>) of
             Inl e \<Rightarrow> [] | Inr st \<Rightarrow> close_heading st))
   \<and> (strip (join_space (map span_text (sort_key span_x0 l))) = ''Introduction'' \<longrightarrow>
        process_line avg' n st l
          = Inr (fst st, (snd st)\<lparr>content := content (snd st) @ ''Introduction ''\<rparr>))
   \<and> (strip (content cur) = [] \<longrightarrow> close_heading (sections, cur) = sections)
   \<and> (process_line avg' n (sections, cur) l' = Inr (sections', cur') \<longrightarrow>
        sections' = sections \<or> (sections' = sections @ [cur] \<and> strip (content cur) \<noteq> []))"
  using extract_structure_nonblank[of fitz_open pdf_path]
    extract_structure_seeded[of fitz_open pdf_path doc avg]
    seed_literal_never_opens[of l avg' n st]
    blank_current_discarded[of cur sections]
    process_line_sections[of avg' n sections cur l' sections' cur']
  by (simp add: list_all_iff)

theorem emitted_sections_nonblank_witness:
  "extract_structure ex_open (ex_path ''guide.pdf'')
     = [\<lparr>level = ''title'', heading_text = ''Introduction'', page = 0,
         content = ''Introduction Welcome to Nice. ''\<rparr>,
        \<lparr>level = ''H1'', heading_text = ''Beach Bars'', page = 1,
         content = ''Open late. ''\<rparr>]
   \<and> strip ''Introduction Welcome to Nice. '' \<noteq> []
   \<and> strip ''Open late. '' \<noteq> []
   \<and> process_line (365 / 28) 0 ([], seed_heading)
        [\<lparr>span_text = ''Introduction'', span_size = 18, span_flags = 16, span_x0 = 72\<rparr>]
       = Inr ([], seed_heading\<lparr>content := ''Introduction ''\<rparr>)
   \<and> close_heading
        ([seed_heading\<lparr>content := ''Introduction Welcome to Nice. ''\<rparr>],
         \<lparr>level = ''H1'', heading_text = ''1. Scope'', page = 0, content = ''''\<rparr>)
       = [seed_heading\<lparr>content := ''Introduction Welcome to Nice. ''\<rparr>]"
  using emitted_sections_nonblank
    [where fitz_open = ex_open and pdf_path = "ex_path ''guide.pdf''" and doc = ex_doc
       and avg = "365 / 28" and avg' = "365 / 28" and n = 0 and st = "([], seed_heading)"
       and l = "[\<lparr>span_text = ''Introduction'', span_size = 18, span_flags = 16,
                   span_x0 = 72\<rparr>]"
       and cur = "\<lparr>level = ''H1'', heading_text = ''1. Scope'', page = 0, content = ''''\<rparr>"
       and sections = "[seed_heading\<lparr>content := ''Introduction Welcome to Nice. ''\<rparr>]"]
  by (simp add: ex_sections ex_strip_intro seed_heading_def strip_empty ex_strip_body0
        ex_strip_body1)

section \<open>The average font size\<close>

lemma sum_counts_zero:
  "list_all (\<lambda>s. span_text s = []) spans \<Longrightarrow>
     sum_list (map (\<lambda>s. int (length (span_text s))) spans) = 0"
  by (induction spans) auto

lemma avg_no_spans:
  "for_each collect_page doc [] = Inr [] \<Longrightarrow> calculate_average_font_size doc = Inr 12"
  by (simp add: calculate_average_font_size_def)

lemma avg_zero_division:
  "for_each collect_page doc [] = Inr spans \<Longrightarrow> spans \<noteq> [] \<Longrightarrow>
   list_all (\<lambda>s. span_text s = []) spans \<Longrightarrow>
     calculate_average_font_size doc = Inl ZeroDivisionError"
  by (simp add: calculate_average_font_size_def Let_def sum_counts_zero)

lemma extract_structure_avg_error:
  "fitz_open p = Inr doc \<Longrightarrow> calculate_average_font_size doc = Inl e \<Longrightarrow>
     extract_body fitz_open p = Inl e \<and> extract_structure fitz_open p = []"
  by (simp add: extract_structure_def extract_body_def)

lemma ex_blank_spans: "for_each collect_page ex_blank_doc [] = Inr ex_empty_spans"
  by (simp add: ex_blank_doc_def collect_page_def)

text \<open>
  C8. Let \<open>spans\<close> be the spans that \<^verbatim>\<open>_calculate_average_font_size\<close> collects from a
  document whose pages can all be read. With no span at all the result is the default
  12.0. With at least one span and every span's text empty, the division raises
  \<^verbatim>\<open>ZeroDivisionError\<close>; \<^verbatim>\<open>extract_structure\<close> catches it and returns no section.
\<close>

theorem empty_spans_zero_division:
  "(for_each collect_page doc [] = Inr [] \<longrightarrow> calculate_average_font_size doc = Inr 12)
   \<and> (for_each collect_page doc [] = Inr spans \<and> spans \<noteq> []
        \<and> (\<forall>s \<in> set spans. span_text s = []) \<and> fitz_open pdf_path = Inr doc
      \<longrightarrow> calculate_average_font_size doc = Inl ZeroDivisionError
          \<and> extract_body fitz_open pdf_path = Inl ZeroDivisionError
          \<and> extract_structure fitz_open pdf_path = [])"
  using avg_no_spans[of doc] avg_zero_division[of doc spans]
    extract_structure_avg_error[of fitz_open pdf_path doc ZeroDivisionError]
  by (auto simp: list_all_iff)

theorem empty_spans_zero_division_witness:
  "calculate_average_font_size ex_blank_doc = Inl ZeroDivisionError
   \<and> extract_structure ex_open (ex_path ''blank.pdf'') = []
   \<and> calculate_average_font_size [] = Inr 12"
  using empty_spans_zero_division
      [of ex_blank_doc ex_empty_spans ex_open "ex_path ''blank.pdf''"]
    empty_spans_zero_division [of "[]" "[]" ex_open "ex_path ''blank.pdf''"]
  by (simp add: ex_blank_spans ex_open_def ex_path_def) (simp add: ex_empty_spans_def)

section \<open>Documents that fail\<close>

lemma extract_failure_empty:
  "extract_body fitz_open p = Inl e \<Longrightarrow> extract_structure fitz_open p = []"
  by (simp add: extract_structure_def)

lemma pool_failure_empty:
  "extract_body fitz_open p = Inl e \<Longrightarrow> pool_document fitz_open p = []"
  by (simp add: pool_document_def extract_failure_empty)

lemma parse_all_skip:
  "extract_body fitz_open p = Inl e \<Longrightarrow>
     parse_all fitz_open (before @ p # after) = parse_all fitz_open (before @ after)"
  by (simp add: parse_all_def pool_failure_empty)

lemma parse_all_append:
  "parse_all fitz_open (ps @ qs) = parse_all fitz_open ps @ parse_all fitz_open qs"
  by (simp add: parse_all_def)

lemma parse_all_nil: "parse_all fitz_open [] = []"
  by (simp add: parse_all_def)

lemma open_failure: "fitz_open p = Inl e \<Longrightarrow> extract_body fitz_open p = Inl e"
  by (simp add: extract_body_def)

lemma page_dict_failure:
  assumes "fitz_open p = Inr doc" and "pg \<in> set doc" and "get_text_dict pg = Inl e"
  shows "\<exists>e'. extract_body fitz_open p = Inl e'"
proof -
  have "\<exists>e'. for_each collect_page doc [] = Inl e'"
    using assms(2,3) by (intro for_each_raises[of pg]) (simp_all add: collect_page_def)
  then show ?thesis
    using assms(1) by (auto simp: extract_body_def calculate_average_font_size_def)
qed

lemma page_flags_failure:
  assumes "fitz_open p = Inr doc" and "pg \<in> set doc" and "get_text_flags pg = Inl e"
  shows "\<exists>e'. extract_body fitz_open p = Inl e'"
proof -
  from assms(2) obtain i where "i < length doc" "doc ! i = pg"
    by (auto simp: in_set_conv_nth)
  then have "(int i, pg) \<in> set (py_enumerate doc)"
    by (auto simp: py_enumerate_def in_set_zip intro!: exI[of _ i])
  then have run: "\<exists>e'. for_each (process_page avg) (py_enumerate doc) st = Inl e'" for avg st
    using assms(3) by (intro for_each_raises[of "(int i, pg)"]) (simp_all add: process_page_def)
  show ?thesis
  proof (cases "calculate_average_font_size doc")
    case (Inl e0)
    with assms(1) show ?thesis by (simp add: extract_body_def)
  next
    case (Inr avg)
    from run[of avg "([], seed_heading)"] obtain e' where
      "for_each (process_page avg) (py_enumerate doc) ([], seed_heading) = Inl e'" by blast
    with Inr assms(1) show ?thesis by (simp add: extract_body_def)
  qed
qed

lemma ex_bad_fails:
  "extract_body ex_open (ex_path ''bad.pdf'') = Inl (FitzError ''cannot open broken document'')"
  by (simp add: extract_body_def ex_open_def ex_path_def)

lemma ex_pooled:
  "parse_all ex_open [ex_path ''guide.pdf'']
     = [\<lparr>level = ''title'', heading_text = ''Introduction'', page = 0,
         content = ''Introduction Welcome to Nice. '', document = ''guide.pdf''\<rparr>,
        \<lparr>level = ''H1'', heading_text = ''Beach Bars'', page = 1,
         content = ''Open late. '', document = ''guide.pdf''\<rparr>]"
  by (simp add: parse_all_def pool_document_def ex_sections) (simp add: ex_path_def)

subsection \<open>Runs of \<^verbatim>\<open>analyze\<close>\<close>

lemma rank_sections_empty: "rank_sections cos_sim persona_role job_task [] = Inl RuntimeError"
  by (simp add: rank_sections_def cosine_scores_def)

lemma rank_sections_nonempty:
  "all_sections \<noteq> [] \<Longrightarrow> \<exists>ranked. rank_sections cos_sim persona_role job_task all_sections = Inr ranked"
  by (simp add: rank_sections_def cosine_scores_def Let_def)

text \<open>A run with no section at all raises; every other run gives a report.\<close>

lemma selected_sections_empty:
  "parse_all fitz_open doc_paths = [] \<Longrightarrow>
     selected_sections fitz_open cos_sim doc_paths persona_role job_task = Inl RuntimeError"
  by (simp add: selected_sections_def rank_sections_empty)

lemma selected_sections_nonempty:
  assumes "parse_all fitz_open doc_paths \<noteq> []"
  shows "\<exists>sel. selected_sections fitz_open cos_sim doc_paths persona_role job_task = Inr sel"
proof -
  from rank_sections_nonempty[OF assms, of cos_sim persona_role job_task] obtain ranked where
    "rank_sections cos_sim persona_role job_task (parse_all fitz_open doc_paths) = Inr ranked"
    by blast
  then show ?thesis by (simp add: selected_sections_def)
qed

lemma analyze_report:
  "selected_sections fitz_open cos_sim doc_paths persona_role job_task = Inr sel \<Longrightarrow>
     analyze fitz_open cos_sim now doc_paths persona_role job_task ci =
       Inr \<lparr>metadata =
              (if truthy ci
               then [(''input_documents'', JArr (map (\<lambda>p. JStr (name p)) doc_paths)),
                     (''persona'', JStr persona_role),
                     (''job_to_be_done'', JStr job_task),
                     (''processing_timestamp'', JStr (slice_to now (- 3) @ ''Z'')),
                     (''challenge_info'', ci)]
               else [(''input_documents'', JArr (map (\<lambda>p. JStr (name p)) doc_paths)),
                     (''persona'', JStr persona_role),
                     (''job_to_be_done'', JStr job_task),
                     (''processing_timestamp'', JStr (slice_to now (- 3) @ ''Z''))]),
            extracted_sections = format_extracted_sections sel,
            subsection_analysis = format_sub_sections sel\<rparr>"
  by (simp add: analyze_def Let_def)

lemma analyze_raises:
  "selected_sections fitz_open cos_sim doc_paths persona_role job_task = Inl e \<Longrightarrow>
     analyze fitz_open cos_sim now doc_paths persona_role job_task ci = Inl e"
  by (simp add: analyze_def)

lemma analyze_selected:
  assumes "analyze fitz_open cos_sim now doc_paths persona_role job_task ci = Inr r"
  shows "\<exists>sel. selected_sections fitz_open cos_sim doc_paths persona_role job_task = Inr sel
           \<and> extracted_sections r = format_extracted_sections sel
           \<and> subsection_analysis r = format_sub_sections sel
           \<and> map_of (metadata r) ''challenge_info'' = (if truthy ci then Some ci else None)
           \<and> ((''challenge_info'' \<in> fst ` set (metadata r)) = truthy ci)"
proof (cases "selected_sections fitz_open cos_sim doc_paths persona_role job_task")
  case (Inl e)
  with assms show ?thesis by (simp add: analyze_raises)
next
  case (Inr sel)
  from analyze_report[OF Inr, of now ci] assms show ?thesis
    using Inr by auto
qed

text \<open>The example run.\<close>

lemma score_section_hits:
  "score_section cs s =
     \<lparr>level = level s, heading_text = heading_text s, page = page s, content = content s,
      document = document s,
      relevance = ((\<lambda>r. float_add r point_one)
                     ^^ length (keyword_hits (heading_text s) (content s))) cs\<rparr>"
  by (simp add: score_section_def Let_def foldl_boost_step keyword_hits_def)

lemma ex_ranked_run:
  "rank_sections (\<lambda>q t. 1 / 2) ''Travel Planner'' ''Plan a trip''
     (parse_all ex_open [ex_path ''guide.pdf'']) = Inr ex_selected_run"
  unfolding ex_pooled
  by (simp add: rank_sections_def cosine_scores_def Let_def score_section_hits
        hits_beach_bars hits_introduction two_adds ex_selected_run_def)

lemma ex_select: "select_diverse_sections ex_selected_run 5 = ex_selected_run"
  by (simp add: select_diverse_sections_def ex_selected_run_def pass1_def pass1_step_pair
        get0_def slice_to_def)

lemma ex_selected_sections:
  "selected_sections ex_open (\<lambda>q t. 1 / 2) [ex_path ''guide.pdf'']
     ''Travel Planner'' ''Plan a trip'' = Inr ex_selected_run"
  by (simp add: selected_sections_def Let_def ex_ranked_run ex_select)

lemma ex_refine_open: "refine ''Open late. '' = ''Open late.''"
  by code_simp

lemma ex_refine_intro:
  "refine ''Introduction Welcome to Nice. '' = ''Introduction Welcome to Nice.''"
  by code_simp

lemma ex_timestamp: "slice_to ''2025-07-28T10:00:00.%fZ'' (- 3) @ ''Z'' = ''2025-07-28T10:00:00.Z''"
  by (simp add: slice_to_def)

lemma ex_formats:
  "format_extracted_sections ex_selected_run = extracted_sections (ex_report [])"
  "format_sub_sections ex_selected_run = subsection_analysis (ex_report [])"
  by (simp_all add: format_extracted_sections_def format_sub_sections_def py_enumerate_def
        ex_selected_run_def ex_report_def ex_refine_open ex_refine_intro upt_rec)

lemma ex_analyze:
  "analyze ex_open (\<lambda>q t. 1 / 2) ''2025-07-28T10:00:00.%fZ'' [ex_path ''guide.pdf'']
     ''Travel Planner'' ''Plan a trip'' ci
     = Inr (ex_report (if truthy ci then [(''challenge_info'', ci)] else []))"
  unfolding analyze_report[OF ex_selected_sections] ex_timestamp ex_formats
  by (simp add: ex_report_def ex_path_def)

subsection \<open>A failing document in a run\<close>

text \<open>
  C7. When the body of the \<^verbatim>\<open>try\<close> raises for a document (opening it fails, a page
  cannot be read, the average font size divides by zero), \<^verbatim>\<open>extract_structure\<close> returns
  the empty list: it is a total function, so nothing is raised to \<^verbatim>\<open>analyze\<close>. The
  pooled sections are then those of the documents before it followed by those of the
  documents after it, and the selected sections and the two lists of the report are
  the ones a run without that document gives (both runs raise when no section at all is
  pooled).
\<close>

theorem failed_document_contributes_nothing:
  "(extract_body fitz_open p = Inl e \<longrightarrow>
      extract_structure fitz_open p = []
      \<and> parse_all fitz_open (before @ p # after)
          = parse_all fitz_open before @ parse_all fitz_open after
      \<and> selected_sections fitz_open cos_sim (before @ p # after) persona_role job_task
          = selected_sections fitz_open cos_sim (before @ after) persona_role job_task
      \<and> map_sum id extracted_sections
            (analyze fitz_open cos_sim now (before @ p # after) persona_role job_task ci)
          = map_sum id extracted_sections
              (analyze fitz_open cos_sim now (before @ after) persona_role job_task ci)
      \<and> map_sum id subsection_analysis
            (analyze fitz_open cos_sim now (before @ p # after) persona_role job_task ci)
          = map_sum id subsection_analysis
              (analyze fitz_open cos_sim now (before @ after) persona_role job_task ci))
   \<and> (fitz_open p = Inl e \<longrightarrow> extract_body fitz_open p = Inl e)
   \<and> (fitz_open p = Inr doc \<and> pg \<in> set doc
        \<and> (get_text_dict pg = Inl e \<or> get_text_flags pg = Inl e)
      \<longrightarrow> extract_structure fitz_open p = [])"
proof -
  have "extract_structure fitz_open p = []"
    if "fitz_open p = Inr doc" "pg \<in> set doc"
       "get_text_dict pg = Inl e \<or> get_text_flags pg = Inl e"
    using that page_dict_failure[of fitz_open p doc pg e]
      page_flags_failure[of fitz_open p doc pg e] extract_failure_empty[of fitz_open p]
    by blast
  moreover have "fitz_open p = Inl e \<longrightarrow> extract_body fitz_open p = Inl e"
    by (simp add: open_failure)
  moreover have "extract_body fitz_open p = Inl e \<longrightarrow>
      extract_structure fitz_open p = []
      \<and> parse_all fitz_open (before @ p # after)
          = parse_all fitz_open before @ parse_all fitz_open after
      \<and> selected_sections fitz_open cos_sim (before @ p # after) persona_role job_task
          = selected_sections fitz_open cos_sim (before @ after) persona_role job_task
      \<and> map_sum id extracted_sections
            (analyze fitz_open cos_sim now (before @ p # after) persona_role job_task ci)
          = map_sum id extracted_sections
              (analyze fitz_open cos_sim now (before @ after) persona_role job_task ci)
      \<and> map_sum id subsection_analysis
            (analyze fitz_open cos_sim now (before @ p # after) persona_role job_task ci)
          = map_sum id subsection_analysis
              (analyze fitz_open cos_sim now (before @ after) persona_role job_task ci)"
  proof
    assume f: "extract_body fitz_open p = Inl e"
    have pool: "parse_all fitz_open (before @ p # after) = parse_all fitz_open (before @ after)"
      using f by (rule parse_all_skip)
    have sel: "selected_sections fitz_open cos_sim (before @ p # after) persona_role job_task
          = selected_sections fitz_open cos_sim (before @ after) persona_role job_task"
      by (simp add: selected_sections_def pool del: append.simps)
    have "map_sum id extracted_sections
            (analyze fitz_open cos_sim now (before @ p # after) persona_role job_task ci)
          = map_sum id extracted_sections
              (analyze fitz_open cos_sim now (before @ after) persona_role job_task ci)"
      "map_sum id subsection_analysis
            (analyze fitz_open cos_sim now (before @ p # after) persona_role job_task ci)
          = map_sum id subsection_analysis
              (analyze fitz_open cos_sim now (before @ after) persona_role job_task ci)"
      by (simp_all add: analyze_def sel Let_def split: sum.splits del: append.simps)
    with f pool sel show "extract_structure fitz_open p = []
      \<and> parse_all fitz_open (before @ p # after)
          = parse_all fitz_open before @ parse_all fitz_open after
      \<and> selected_sections fitz_open cos_sim (before @ p # after) persona_role job_task
          = selected_sections fitz_open cos_sim (before @ after) persona_role job_task
      \<and> map_sum id extracted_sections
            (analyze fitz_open cos_sim now (before @ p # after) persona_role job_task ci)
          = map_sum id extracted_sections
              (analyze fitz_open cos_sim now (before @ after) persona_role job_task ci)
      \<and> map_sum id subsection_analysis
            (analyze fitz_open cos_sim now (before @ p # after) persona_role job_task ci)
          = map_sum id subsection_analysis
              (analyze fitz_open cos_sim now (before @ after) persona_role job_task ci)"
      by (simp add: extract_failure_empty parse_all_append del: append.simps)
  qed
  ultimately show ?thesis by blast
qed

theorem failed_document_contributes_nothing_witness:
  "extract_structure ex_open (ex_path ''bad.pdf'') = []
   \<and> parse_all ex_open [ex_path ''bad.pdf'', ex_path ''guide.pdf'']
       = [\<lparr>level = ''title'', heading_text = ''Introduction'', page = 0,
           content = ''Introduction Welcome to Nice. '', document = ''guide.pdf''\<rparr>,
          \<lparr>level = ''H1'', heading_text = ''Beach Bars'', page = 1,
           content = ''Open late. '', document = ''guide.pdf''\<rparr>]
   \<and> selected_sections ex_open (\<lambda>q t. 1 / 2) [ex_path ''bad.pdf'', ex_path ''guide.pdf'']
         ''Travel Planner'' ''Plan a trip'' = Inr ex_selected_run
   \<and> map_sum id extracted_sections
         (analyze ex_open (\<lambda>q t. 1 / 2) ''2025-07-28T10:00:00.%fZ''
            [ex_path ''bad.pdf'', ex_path ''guide.pdf''] ''Travel Planner'' ''Plan a trip'' JNull)
       = Inr (extracted_sections (ex_report []))
   \<and> map_sum id subsection_analysis
         (analyze ex_open (\<lambda>q t. 1 / 2) ''2025-07-28T10:00:00.%fZ''
            [ex_path ''bad.pdf'', ex_path ''guide.pdf''] ''Travel Planner'' ''Plan a trip'' JNull)
       = Inr (subsection_analysis (ex_report []))"
  using failed_document_contributes_nothing
    [where fitz_open = ex_open and p = "ex_path ''bad.pdf''"
       and e = "FitzError ''cannot open broken document''"
       and before = "[]" and after = "[ex_path ''guide.pdf'']"
       and cos_sim = "\<lambda>q t. 1 / 2" and now = "''2025-07-28T10:00:00.%fZ''"
       and persona_role = "''Travel Planner''" and job_task = "''Plan a trip''" and ci = JNull]
  by (simp add: ex_bad_fails ex_pooled parse_all_nil ex_selected_sections ex_analyze)

section \<open>The report\<close>

lemma map_enumerate_snd: "map (\<lambda>x. f (snd x)) (py_enumerate xs) = map f xs"
proof -
  have "map (\<lambda>x. f (snd x)) (py_enumerate xs) = map f (map snd (py_enumerate xs))"
    by (simp add: o_def)
  also have "map snd (py_enumerate xs) = xs"
    by (simp add: py_enumerate_def)
  finally show ?thesis .
qed

lemma map_enumerate_fst:
  "map (\<lambda>x. h (fst x)) (py_enumerate xs) = map (\<lambda>i. h (int i)) [0..<length xs]"
proof -
  have "map (\<lambda>x. h (fst x)) (py_enumerate xs) = map h (map fst (py_enumerate xs))"
    by (simp add: o_def)
  also have "map fst (py_enumerate xs) = map int [0..<length xs]"
    by (simp add: py_enumerate_def)
  finally show ?thesis by (simp add: o_def)
qed

lemma format_extracted_document:
  "map es_document (format_extracted_sections sel) = map document sel"
  unfolding format_extracted_sections_def
  by (simp add: case_prod_unfold o_def map_enumerate_snd[of document])

lemma format_extracted_title:
  "map section_title (format_extracted_sections sel) = map heading_text sel"
  unfolding format_extracted_sections_def
  by (simp add: case_prod_unfold o_def map_enumerate_snd[of heading_text])

lemma format_extracted_page:
  "map es_page_number (format_extracted_sections sel) = map (\<lambda>s. page s + 1) sel"
  unfolding format_extracted_sections_def
  by (simp add: case_prod_unfold o_def map_enumerate_snd[of "\<lambda>s. page s + 1"])

lemma format_extracted_rank:
  "map importance_rank (format_extracted_sections sel)
     = map (\<lambda>i. int i + 1) [0..<length sel]"
  unfolding format_extracted_sections_def
  by (simp add: case_prod_unfold o_def map_enumerate_fst[of "\<lambda>i. i + 1"])

lemma format_sub_document:
  "map sa_document (format_sub_sections sel) = map document sel"
  by (simp add: format_sub_sections_def o_def)

lemma format_sub_page:
  "map sa_page_number (format_sub_sections sel) = map (\<lambda>s. page s + 1) sel"
  by (simp add: format_sub_sections_def o_def)

lemma format_sub_refined:
  "map refined_text (format_sub_sections sel) = map (\<lambda>s. refine (content s)) sel"
  by (simp add: format_sub_sections_def o_def)

lemma format_lengths:
  "length (format_extracted_sections sel) = length sel"
  "length (format_sub_sections sel) = length sel"
  by (simp_all add: format_extracted_sections_def format_sub_sections_def py_enumerate_def)

text \<open>
  C9. In every report that a run produces, the two lists have the same length, and both
  are the image of the one list of selected sections, in its order: entry by entry they
  carry the document of the same section and its page index plus one. The extracted
  entry also carries the section's heading and the rank \<open>i + 1\<close>, the analysis entry its
  refined body. A run produces a report exactly when at least one section is pooled.
\<close>

theorem report_lists_aligned:
  "(analyze fitz_open cos_sim now doc_paths persona_role job_task ci = Inr r \<longrightarrow>
     (\<exists>sel. selected_sections fitz_open cos_sim doc_paths persona_role job_task = Inr sel
        \<and> length (extracted_sections r) = length (subsection_analysis r)
        \<and> map es_document (extracted_sections r) = map document sel
        \<and> map sa_document (subsection_analysis r) = map document sel
        \<and> map es_page_number (extracted_sections r) = map (\<lambda>s. page s + 1) sel
        \<and> map sa_page_number (subsection_analysis r) = map (\<lambda>s. page s + 1) sel
        \<and> map section_title (extracted_sections r) = map heading_text sel
        \<and> map refined_text (subsection_analysis r) = map (\<lambda>s. refine (content s)) sel
        \<and> map importance_rank (extracted_sections r)
            = map (\<lambda>i. int i + 1) [0..<length sel]))
   \<and> ((\<exists>r. analyze fitz_open cos_sim now doc_paths persona_role job_task ci = Inr r)
        = (parse_all fitz_open doc_paths \<noteq> []))"
proof (intro conjI impI)
  show "(\<exists>r. analyze fitz_open cos_sim now doc_paths persona_role job_task ci = Inr r)
        = (parse_all fitz_open doc_paths \<noteq> [])"
  proof (cases "parse_all fitz_open doc_paths = []")
    case True
    from analyze_raises[OF selected_sections_empty[OF True]]
    have "analyze fitz_open cos_sim now doc_paths persona_role job_task ci = Inl RuntimeError" .
    with True show ?thesis by simp
  next
    case False
    from selected_sections_nonempty[OF False] obtain sel where
      "selected_sections fitz_open cos_sim doc_paths persona_role job_task = Inr sel"
      by blast
    from analyze_report[OF this, of now ci] False show ?thesis by blast
  qed
next
  assume "analyze fitz_open cos_sim now doc_paths persona_role job_task ci = Inr r"
  from analyze_selected[OF this] obtain sel where
    sel: "selected_sections fitz_open cos_sim doc_paths persona_role job_task = Inr sel"
    and r: "extracted_sections r = format_extracted_sections sel"
      "subsection_analysis r = format_sub_sections sel"
    by blast
  show "\<exists>sel. selected_sections fitz_open cos_sim doc_paths persona_role job_task = Inr sel
        \<and> length (extracted_sections r) = length (subsection_analysis r)
        \<and> map es_document (extracted_sections r) = map document sel
        \<and> map sa_document (subsection_analysis r) = map document sel
        \<and> map es_page_number (extracted_sections r) = map (\<lambda>s. page s + 1) sel
        \<and> map sa_page_number (subsection_analysis r) = map (\<lambda>s. page s + 1) sel
        \<and> map section_title (extracted_sections r) = map heading_text sel
        \<and> map refined_text (subsection_analysis r) = map (\<lambda>s. refine (content s)) sel
        \<and> map importance_rank (extracted_sections r)
            = map (\<lambda>i. int i + 1) [0..<length sel]"
    unfolding r
    by (intro exI[of _ sel])
       (simp add: sel format_extracted_document format_extracted_page format_sub_document
          format_sub_page format_extracted_title format_sub_refined format_extracted_rank
          format_lengths)
qed

theorem report_lists_aligned_witness:
  "analyze ex_open (\<lambda>q t. 1 / 2) ''2025-07-28T10:00:00.%fZ'' [ex_path ''guide.pdf'']
     ''Travel Planner'' ''Plan a trip'' JNull = Inr (ex_report [])
   \<and> length (extracted_sections (ex_report [])) = length (subsection_analysis (ex_report []))
   \<and> map es_document (extracted_sections (ex_report [])) = map document ex_selected_run
   \<and> map sa_document (subsection_analysis (ex_report [])) = map document ex_selected_run
   \<and> map es_page_number (extracted_sections (ex_report []))
       = map (\<lambda>s. page s + 1) ex_selected_run
   \<and> map sa_page_number (subsection_analysis (ex_report []))
       = map (\<lambda>s. page s + 1) ex_selected_run
   \<and> map es_page_number (extracted_sections (ex_report [])) = [2, 1]
   \<and> parse_all ex_open [ex_path ''guide.pdf''] \<noteq> []"
  using report_lists_aligned
    [of ex_open "\<lambda>q t. 1 / 2" "''2025-07-28T10:00:00.%fZ''" "[ex_path ''guide.pdf'']"
        "''Travel Planner''" "''Plan a trip''" JNull "ex_report []"]
  by (simp add: ex_analyze ex_selected_sections ex_pooled) (simp add: ex_report_def)

text \<open>
  C10. In the report of a run, the metadata has the key \<^verbatim>\<open>challenge_info\<close> exactly when
  the request has that field with a truthy value, and then it carries that value
  unchanged: with the field absent, or present with the empty object (or \<^verbatim>\<open>null\<close>, or
  any other falsy value), the metadata has no such key. For \<^verbatim>\<open>analyze\<close> itself the key
  is there exactly when the value it is handed is truthy.
\<close>

theorem challenge_info_only_when_truthy:
  "(main_analyze fitz_open cos_sim now input_data pdf_paths persona_role job_task = Inr r
    \<longrightarrow> map_of (metadata r) ''challenge_info''
          = (case map_of input_data ''challenge_info'' of
               None \<Rightarrow> None
             | Some v \<Rightarrow> if truthy v then Some v else None)
        \<and> ((''challenge_info'' \<in> fst ` set (metadata r))
             = (\<exists>v. map_of input_data ''challenge_info'' = Some v \<and> truthy v))
        \<and> (map_of input_data ''challenge_info'' = None
             \<or> map_of input_data ''challenge_info'' = Some (JObj [])
           \<longrightarrow> ''challenge_info'' \<notin> fst ` set (metadata r)))
   \<and> (analyze fitz_open cos_sim now pdf_paths persona_role job_task ci = Inr r'
    \<longrightarrow> map_of (metadata r') ''challenge_info'' = (if truthy ci then Some ci else None)
        \<and> ((''challenge_info'' \<in> fst ` set (metadata r')) = truthy ci))"
proof -
  have "map_of (metadata r) ''challenge_info''
          = (case map_of input_data ''challenge_info'' of
               None \<Rightarrow> None
             | Some v \<Rightarrow> if truthy v then Some v else None)
        \<and> ((''challenge_info'' \<in> fst ` set (metadata r))
             = (\<exists>v. map_of input_data ''challenge_info'' = Some v \<and> truthy v))
        \<and> (map_of input_data ''challenge_info'' = None
             \<or> map_of input_data ''challenge_info'' = Some (JObj [])
           \<longrightarrow> ''challenge_info'' \<notin> fst ` set (metadata r))"
    if "main_analyze fitz_open cos_sim now input_data pdf_paths persona_role job_task = Inr r"
    using analyze_selected[OF that[unfolded main_analyze_def]]
    by (auto simp: main_challenge_info_def split: option.splits)
  moreover have "map_of (metadata r') ''challenge_info'' = (if truthy ci then Some ci else None)
        \<and> ((''challenge_info'' \<in> fst ` set (metadata r')) = truthy ci)"
    if "analyze fitz_open cos_sim now pdf_paths persona_role job_task ci = Inr r'"
    using analyze_selected[OF that] by blast
  ultimately show ?thesis by blast
qed

lemma ex_main_analyze:
  "main_analyze ex_open (\<lambda>q t. 1 / 2) ''2025-07-28T10:00:00.%fZ'' input_data
     [ex_path ''guide.pdf''] ''Travel Planner'' ''Plan a trip''
     = Inr (ex_report (if truthy (main_challenge_info input_data)
                       then [(''challenge_info'', main_challenge_info input_data)] else []))"
  by (simp add: main_analyze_def ex_analyze)

theorem challenge_info_only_when_truthy_witness:
  "main_analyze ex_open (\<lambda>q t. 1 / 2) ''2025-07-28T10:00:00.%fZ''
     [(''persona'', JObj [(''role'', JStr ''Travel Planner'')])]
     [ex_path ''guide.pdf''] ''Travel Planner'' ''Plan a trip'' = Inr (ex_report [])
   \<and> main_analyze ex_open (\<lambda>q t. 1 / 2) ''2025-07-28T10:00:00.%fZ''
       [(''challenge_info'', JObj [])]
       [ex_path ''guide.pdf''] ''Travel Planner'' ''Plan a trip'' = Inr (ex_report [])
   \<and> main_analyze ex_open (\<lambda>q t. 1 / 2) ''2025-07-28T10:00:00.%fZ''
       [(''challenge_info'', JNull)]
       [ex_path ''guide.pdf''] ''Travel Planner'' ''Plan a trip'' = Inr (ex_report [])
   \<and> ''challenge_info'' \<notin> fst ` set (metadata (ex_report []))
   \<and> map_of (metadata (ex_report [])) ''challenge_info'' = None
   \<and> main_analyze ex_open (\<lambda>q t. 1 / 2) ''2025-07-28T10:00:00.%fZ''
       [(''challenge_info'', JObj [(''challenge_id'', JStr ''round_1b_002'')])]
       [ex_path ''guide.pdf''] ''Travel Planner'' ''Plan a trip''
       = Inr (ex_report [(''challenge_info'', JObj [(''challenge_id'', JStr ''round_1b_002'')])])
   \<and> map_of (metadata
         (ex_report [(''challenge_info'', JObj [(''challenge_id'', JStr ''round_1b_002'')])]))
       ''challenge_info'' = Some (JObj [(''challenge_id'', JStr ''round_1b_002'')])
   \<and> ''challenge_info'' \<in> fst ` set (metadata
         (ex_report [(''challenge_info'', JObj [(''challenge_id'', JStr ''round_1b_002'')])]))"
  using challenge_info_only_when_truthy
      [of ex_open "\<lambda>q t. 1 / 2" "''2025-07-28T10:00:00.%fZ''"
          "[(''persona'', JObj [(''role'', JStr ''Travel Planner'')])]"
          "[ex_path ''guide.pdf'']" "''Travel Planner''" "''Plan a trip''" "ex_report []"
          "JObj []" "ex_report []"]
    challenge_info_only_when_truthy
      [of ex_open "\<lambda>q t. 1 / 2" "''2025-07-28T10:00:00.%fZ''"
          "[(''challenge_info'', JNull)]"
          "[ex_path ''guide.pdf'']" "''Travel Planner''" "''Plan a trip''" "ex_report []"
          JNull "ex_report []"]
    challenge_info_only_when_truthy
      [of ex_open "\<lambda>q t. 1 / 2" "''2025-07-28T10:00:00.%fZ''"
          "[(''challenge_info'', JObj [(''challenge_id'', JStr ''round_1b_002'')])]"
          "[ex_path ''guide.pdf'']" "''Travel Planner''" "''Plan a trip''"
          "ex_report [(''challenge_info'', JObj [(''challenge_id'', JStr ''round_1b_002'')])]"
          "JObj [(''challenge_id'', JStr ''round_1b_002'')]"
          "ex_report [(''challenge_info'', JObj [(''challenge_id'', JStr ''round_1b_002'')])]"]
  by (simp add: ex_main_analyze ex_analyze main_challenge_info_def)

section \<open>The heading classifier\<close>

inductive_cases m_ZeroE: "matches Zero w"

inductive_cases m_OneE: "matches One w"


inductive_cases m_TimesE: "matches (Times r s) w"


lemma matches_Zero [simp]: "\<not> matches Zero w"
  by (auto elim: m_ZeroE)

lemma matches_One [simp]: "matches One w \<longleftrightarrow> w = []"
  by (auto elim: m_OneE intro: m_One)






































section \<open>The excerpt refiner\<close>

lemma refine_alt: "refine body =
     (if length (collapse_and_strip body) > 500
      then (if last_sentence_end (slice_to (collapse_and_strip body) 400) > 200
            then slice_to (slice_to (collapse_and_strip body) 400)
                   (last_sentence_end (slice_to (collapse_and_strip body) 400) + 1)
            else slice_to (collapse_and_strip body) 300 @ ''...'')
      else collapse_and_strip body)"
  by (simp add: refine_def collapse_and_strip_def last_sentence_end_def Let_def)

lemma rfind_from_result:
  "0 \<le> i \<Longrightarrow>
     (rfind_from i c xs = -1 \<and> c \<notin> set xs) \<or>
     (\<exists>k<length xs. rfind_from i c xs = i + int k \<and> xs ! k = c \<and>
        (\<forall>j. k < j \<and> j < length xs \<longrightarrow> xs ! j \<noteq> c))"
proof (induction xs arbitrary: i)
  case Nil
  then show ?case by simp
next
  case (Cons x xs)
  from Cons.prems have i1: "0 \<le> i + 1" by simp
  from Cons.IH[OF i1] show ?case
  proof
    assume a: "rfind_from (i + 1) c xs = - 1 \<and> c \<notin> set xs"
    show ?thesis
    proof (cases "x = c")
      case True
      have "\<forall>j. 0 < j \<and> j < length (x # xs) \<longrightarrow> (x # xs) ! j \<noteq> c"
        using a by (auto simp: nth_Cons split: nat.splits)
      with a True show ?thesis by (intro disjI2 exI[of _ 0]) (simp add: Let_def)
    next
      case False
      with a show ?thesis by (simp add: Let_def)
    qed
  next
    assume "\<exists>k<length xs. rfind_from (i + 1) c xs = i + 1 + int k \<and> xs ! k = c \<and>
        (\<forall>j. k < j \<and> j < length xs \<longrightarrow> xs ! j \<noteq> c)"
    then obtain k where k: "k < length xs" "rfind_from (i + 1) c xs = i + 1 + int k"
      "xs ! k = c" "\<forall>j. k < j \<and> j < length xs \<longrightarrow> xs ! j \<noteq> c" by blast
    from k(2) Cons.prems have ne: "rfind_from (i + 1) c xs \<noteq> - 1" by simp
    have later: "\<forall>j. Suc k < j \<and> j < length (x # xs) \<longrightarrow> (x # xs) ! j \<noteq> c"
      using k(4) by (auto simp: nth_Cons split: nat.splits)
    show ?thesis
      using k(1,2,3) ne later
      by (intro disjI2 exI[of _ "Suc k"]) (simp add: Let_def)
  qed
qed

lemma rfind_result:
  "(rfind w c = -1 \<and> c \<notin> set w) \<or>
   (\<exists>k<length w. rfind w c = int k \<and> w ! k = c \<and>
      (\<forall>j. k < j \<and> j < length w \<longrightarrow> w ! j \<noteq> c))"
  using rfind_from_result[of 0 c w] by (simp add: rfind_def)

lemma not_ex_drop:
  "\<not> list_ex P (drop m w) \<Longrightarrow> m \<le> j \<Longrightarrow> j < length w \<Longrightarrow> \<not> P (w ! j)"
proof -
  assume a: "\<not> list_ex P (drop m w)" "m \<le> j" "j < length w"
  then have "drop m w ! (j - m) = w ! j" "j - m < length (drop m w)" by auto
  then have "w ! j \<in> set (drop m w)" by (metis nth_mem)
  with a(1) show ?thesis by (auto simp: list_ex_iff)
qed

lemma rfind_below:
  assumes "\<not> list_ex is_terminal (drop m w)" and "is_terminal c"
  shows "rfind w c < int m"
  using rfind_result[of w c]
proof
  assume "rfind w c = - 1 \<and> c \<notin> set w"
  then show ?thesis by simp
next
  assume "\<exists>k<length w. rfind w c = int k \<and> w ! k = c \<and>
      (\<forall>j. k < j \<and> j < length w \<longrightarrow> w ! j \<noteq> c)"
  then obtain k where k: "k < length w" "rfind w c = int k" "w ! k = c" by blast
  have "k < m"
  proof (rule ccontr)
    assume "\<not> k < m"
    then have "\<not> is_terminal (w ! k)" using not_ex_drop[OF assms(1), of k] k(1) by simp
    with k(3) assms(2) show False by simp
  qed
  with k(2) show ?thesis by simp
qed

lemma rfind_at:
  assumes "i < length w" and "w ! i = c" and "\<not> list_ex is_terminal (drop (Suc i) w)"
    and "is_terminal c"
  shows "rfind w c = int i"
  using rfind_result[of w c]
proof
  assume "rfind w c = - 1 \<and> c \<notin> set w"
  with assms(1,2) show ?thesis by (metis nth_mem)
next
  assume "\<exists>k<length w. rfind w c = int k \<and> w ! k = c \<and>
      (\<forall>j. k < j \<and> j < length w \<longrightarrow> w ! j \<noteq> c)"
  then obtain k where k: "k < length w" "rfind w c = int k" "w ! k = c"
    "\<forall>j. k < j \<and> j < length w \<longrightarrow> w ! j \<noteq> c" by blast
  have "\<not> k < i" using k(4) assms(1,2) by blast
  moreover have "k < Suc i" using rfind_below[OF assms(3,4)] k(2) by simp
  ultimately show ?thesis using k(2) by simp
qed

lemma last_sentence_end_at:
  assumes "i < length w" and "is_terminal (w ! i)" and "\<not> list_ex is_terminal (drop (Suc i) w)"
  shows "last_sentence_end w = int i"
proof -
  have le: "rfind w c \<le> int i" if "is_terminal c" for c
    using rfind_below[OF assms(3) that] by simp
  have eq: "rfind w (w ! i) = int i"
    using rfind_at[OF assms(1) refl assms(3) assms(2)] .
  have t: "is_terminal (CHR ''.'')" "is_terminal (CHR ''!'')" "is_terminal (CHR ''?'')"
    by (simp_all add: is_terminal_def)
  from assms(2) consider "w ! i = CHR ''.''" | "w ! i = CHR ''!''" | "w ! i = CHR ''?''"
    by (auto simp: is_terminal_def)
  then show ?thesis
    using le[OF t(1)] le[OF t(2)] le[OF t(3)] eq
    by cases (auto simp: last_sentence_end_def)
qed

lemma last_sentence_end_low:
  assumes "\<not> list_ex is_terminal (drop 201 w)"
  shows "last_sentence_end w \<le> 200"
proof -
  have "rfind w c < 201" if "is_terminal c" for c
    using rfind_below[OF assms that] by simp
  then have "rfind w (CHR ''.'') < 201" "rfind w (CHR ''!'') < 201" "rfind w (CHR ''?'') < 201"
    by (simp_all add: is_terminal_def)
  then show ?thesis by (simp add: last_sentence_end_def)
qed

lemma refine_short:
  "length (collapse_and_strip body) \<le> 500 \<Longrightarrow> refine body = collapse_and_strip body"
  by (simp add: refine_alt)

lemma refine_sentence:
  assumes "500 < length (collapse_and_strip body)" and "200 < i" and "i < 400"
    and "is_terminal (collapse_and_strip body ! i)"
    and "\<not> list_ex is_terminal (drop (Suc i) (take 400 (collapse_and_strip body)))"
  shows "refine body = take (Suc i) (collapse_and_strip body)"
proof -
  let ?n = "collapse_and_strip body"
  let ?w = "take 400 ?n"
  have w: "slice_to ?n 400 = ?w" by (simp add: slice_to_def)
  have "i < length ?w" using assms(1,3) by simp
  moreover have "is_terminal (?w ! i)" using assms(3,4) by simp
  ultimately have "last_sentence_end ?w = int i"
    using assms(5) by (rule last_sentence_end_at)
  then have "refine body = slice_to ?w (int i + 1)"
    using assms(1,2) by (simp add: refine_alt w)
  also have "\<dots> = take (Suc i) ?w" by (simp add: slice_to_def nat_add_distrib)
  also have "\<dots> = take (Suc i) ?n" using assms(3) by (simp add: min_def)
  finally show ?thesis .
qed

lemma refine_fallback:
  assumes "500 < length (collapse_and_strip body)"
    and "\<not> list_ex is_terminal (drop 201 (take 400 (collapse_and_strip body)))"
  shows "refine body = take 300 (collapse_and_strip body) @ ''...''"
proof -
  let ?n = "collapse_and_strip body"
  have w: "slice_to ?n 400 = take 400 ?n" "slice_to ?n 300 = take 300 ?n"
    by (simp_all add: slice_to_def)
  have "last_sentence_end (take 400 ?n) \<le> 200"
    using assms(2) by (rule last_sentence_end_low)
  then show ?thesis
    using assms(1) by (simp add: refine_alt w)
qed

lemma strip_rstrip: "strip s = rstrip (dropWhile py_isspace s)"
  by (simp add: strip_def rstrip_def)

lemma space_is_space: "py_isspace (CHR '' '')"
  by (simp add: py_isspace_def)

lemma rstrip_keep:
  assumes "\<exists>y \<in> set x. \<not> py_isspace y"
  shows "rstrip (p @ x) = p @ rstrip x"
proof -
  from assms obtain y where "y \<in> set (rev x)" "\<not> py_isspace y" by auto
  then have "dropWhile py_isspace (rev x @ rev p) = dropWhile py_isspace (rev x) @ rev p"
    by (rule dropWhile_append1)
  then show ?thesis by (simp add: rstrip_def)
qed

lemma rstrip_drop:
  assumes "\<forall>y \<in> set x. py_isspace y"
  shows "rstrip (p @ x) = rstrip p"
proof -
  have "dropWhile py_isspace (rev x @ rev p) = dropWhile py_isspace (rev p)"
    using assms by (intro dropWhile_append2) simp
  then show ?thesis by (simp add: rstrip_def)
qed

lemma rstrip_word:
  "\<forall>y \<in> set p. \<not> py_isspace y \<Longrightarrow> rstrip p = p"
  by (cases "rev p") (auto simp: rstrip_def)

lemma split_acc_nonempty: "cur \<noteq> [] \<Longrightarrow> split_acc cur xs \<noteq> []"
  by (induction xs arbitrary: cur) auto

lemma split_acc_skip: "split_acc [] xs = split_acc [] (dropWhile py_isspace xs)"
  by (induction xs) auto

lemma join_space_Cons: "W \<noteq> [] \<Longrightarrow> join_space (p # W) = p @ CHR '' '' # join_space W"
  by (cases W) auto

lemma dropWhile_cases:
  "dropWhile P xs = [] \<or> (\<exists>d ds. dropWhile P xs = d # ds \<and> \<not> P d \<and> length ds < length xs)"
proof (cases "dropWhile P xs")
  case Nil
  then show ?thesis by simp
next
  case (Cons d ds)
  then have "\<not> P d" using hd_dropWhile[of P xs] by auto
  moreover have "length (d # ds) \<le> length xs" using length_dropWhile_le[of P xs] Cons by simp
  ultimately show ?thesis using Cons by auto
qed

lemma rstrip_sub_spaces:
  "cur \<noteq> [] \<Longrightarrow> \<forall>y \<in> set cur. \<not> py_isspace y \<Longrightarrow>
     rstrip (cur @ sub_spaces cs) = join_space (split_acc cur cs)"
proof (induction "length cs" arbitrary: cs cur rule: less_induct)
  case less
  show ?case
  proof (cases cs)
    case Nil
    with less.prems show ?thesis by (simp add: rstrip_word)
  next
    case (Cons c cs')
    show ?thesis
    proof (cases "py_isspace c")
      case False
      have "rstrip ((cur @ [c]) @ sub_spaces cs') = join_space (split_acc (cur @ [c]) cs')"
        using less.prems False Cons by (intro less.hyps) auto
      with False Cons show ?thesis by simp
    next
      case True
      from dropWhile_cases[of py_isspace cs'] show ?thesis
      proof
        assume e: "dropWhile py_isspace cs' = []"
        then have "split_acc [] cs' = []"
          using split_acc_skip[of cs'] by (simp del: dropWhile_eq_Nil_conv)
        moreover have "rstrip (cur @ '' '') = cur"
          using rstrip_drop[of "'' ''" cur] rstrip_word[of cur] less.prems(2) space_is_space
          by simp
        ultimately show ?thesis
          using True Cons e less.prems(1) by (simp del: dropWhile_eq_Nil_conv)
      next
        assume "\<exists>d ds. dropWhile py_isspace cs' = d # ds \<and> \<not> py_isspace d
                  \<and> length ds < length cs'"
        then obtain d ds where d: "dropWhile py_isspace cs' = d # ds" "\<not> py_isspace d"
          "length ds < length cs'" by blast
        have W: "split_acc [] cs' = split_acc [d] ds"
          using split_acc_skip[of cs'] d(1,2) by simp
        have ne: "split_acc [d] ds \<noteq> []" by (simp add: split_acc_nonempty)
        have ih: "rstrip ([d] @ sub_spaces ds) = join_space (split_acc [d] ds)"
          using d(2,3) Cons by (intro less.hyps) auto
        have "rstrip (cur @ sub_spaces cs) = rstrip ((cur @ '' '') @ (d # sub_spaces ds))"
          using True Cons d(1,2) by simp
        also have "\<dots> = (cur @ '' '') @ rstrip (d # sub_spaces ds)"
          using d(2) by (intro rstrip_keep) auto
        also have "\<dots> = cur @ CHR '' '' # join_space (split_acc [d] ds)"
          using ih by simp
        also have "\<dots> = join_space (cur # split_acc [d] ds)"
          using ne by (simp add: join_space_Cons)
        also have "\<dots> = join_space (split_acc cur cs)"
          using True Cons less.prems(1) W by simp
        finally show ?thesis .
      qed
    qed
  qed
qed

lemma dropWhile_sub_spaces:
  "dropWhile py_isspace (sub_spaces s) = sub_spaces (dropWhile py_isspace s)"
proof (cases s)
  case Nil
  then show ?thesis by simp
next
  case (Cons c cs)
  show ?thesis
  proof (cases "py_isspace c")
    case False
    with Cons show ?thesis by simp
  next
    case True
    from dropWhile_cases[of py_isspace cs] show ?thesis
    proof
      assume "dropWhile py_isspace cs = []"
      with True Cons show ?thesis by (simp add: space_is_space del: dropWhile_eq_Nil_conv)
    next
      assume "\<exists>d ds. dropWhile py_isspace cs = d # ds \<and> \<not> py_isspace d \<and> length ds < length cs"
      then obtain d ds where "dropWhile py_isspace cs = d # ds" "\<not> py_isspace d" by blast
      with True Cons show ?thesis by (simp add: space_is_space)
    qed
  qed
qed

lemma collapse_and_strip_join_split:
  "collapse_and_strip s = join_space (py_split s)"
proof -
  have "collapse_and_strip s = rstrip (sub_spaces (dropWhile py_isspace s))"
    by (simp add: collapse_and_strip_def strip_rstrip dropWhile_sub_spaces)
  also have "\<dots> = join_space (split_acc [] (dropWhile py_isspace s))"
  proof -
    from dropWhile_cases[of py_isspace s] show ?thesis
    proof
      assume "dropWhile py_isspace s = []"
      then show ?thesis by (simp add: rstrip_def del: dropWhile_eq_Nil_conv)
    next
      assume "\<exists>d ds. dropWhile py_isspace s = d # ds \<and> \<not> py_isspace d \<and> length ds < length s"
      then obtain d ds where d: "dropWhile py_isspace s = d # ds" "\<not> py_isspace d" by blast
      have "rstrip ([d] @ sub_spaces ds) = join_space (split_acc [d] ds)"
        using d(2) by (intro rstrip_sub_spaces) auto
      with d show ?thesis by simp
    qed
  qed
  also have "\<dots> = join_space (py_split s)"
    using split_acc_skip[of s] by (simp add: py_split_def)
  finally show ?thesis .
qed

lemma ex_sentence_facts:
  "500 < length (collapse_and_strip ex_sentence_body)
   \<and> is_terminal (collapse_and_strip ex_sentence_body ! 250)
   \<and> \<not> list_ex is_terminal (drop (Suc 250) (take 400 (collapse_and_strip ex_sentence_body)))
   \<and> take (Suc 250) (collapse_and_strip ex_sentence_body) = replicate 250 (CHR ''a'') @ ''.''"
  unfolding ex_sentence_body_def collapse_and_strip_def is_terminal_def by code_simp

lemma ex_fallback_facts:
  "500 < length (collapse_and_strip ex_fallback_body)
   \<and> \<not> list_ex is_terminal (drop 201 (take 400 (collapse_and_strip ex_fallback_body)))
   \<and> collapse_and_strip ex_fallback_body ! 200 = CHR ''.''
   \<and> take 300 (collapse_and_strip ex_fallback_body)
       = replicate 200 (CHR ''a'') @ ''. '' @ replicate 98 (CHR ''b'')"
  unfolding ex_fallback_body_def collapse_and_strip_def is_terminal_def by code_simp

lemma ex_short_facts:
  "length (collapse_and_strip ex_short_body) \<le> 500
   \<and> collapse_and_strip ex_short_body = ''Open late.''"
  unfolding ex_short_body_def collapse_and_strip_def by code_simp

text \<open>
  C5. The refiner works on the body with every run of whitespace made one space and the
  ends trimmed, which is the words of the body joined by single spaces. If that text has
  at most 500 characters it is the excerpt. Otherwise, if the last \<^verbatim>\<open>.\<close>, \<^verbatim>\<open>!\<close> or \<^verbatim>\<open>?\<close>
  among its first 400 characters is at an index \<open>i\<close> above 200 (indices from 0), the
  excerpt is its first \<open>i + 1\<close> characters, at most 400; and if no such mark lies at
  an index above 200, the excerpt is its first 300 characters followed by three dots.
\<close>

theorem excerpt_refiner:
  "collapse_and_strip body = join_space (py_split body)
   \<and> (length (collapse_and_strip body) \<le> 500 \<longrightarrow> refine body = collapse_and_strip body)
   \<and> (500 < length (collapse_and_strip body) \<and> 200 < i \<and> i < 400
        \<and> is_terminal (collapse_and_strip body ! i)
        \<and> \<not> list_ex is_terminal (drop (Suc i) (take 400 (collapse_and_strip body)))
      \<longrightarrow> refine body = take (Suc i) (collapse_and_strip body)
          \<and> length (refine body) \<le> 401)
   \<and> (500 < length (collapse_and_strip body)
        \<and> \<not> list_ex is_terminal (drop 201 (take 400 (collapse_and_strip body)))
      \<longrightarrow> refine body = take 300 (collapse_and_strip body) @ ''...'')"
  using collapse_and_strip_join_split[of body] refine_short[of body]
    refine_sentence[of body i] refine_fallback[of body]
  by auto

theorem excerpt_refiner_witness:
  "refine ex_sentence_body = replicate 250 (CHR ''a'') @ ''.''
   \<and> refine ex_fallback_body = replicate 200 (CHR ''a'') @ ''. '' @ replicate 98 (CHR ''b'') @ ''...''
   \<and> refine ex_short_body = ''Open late.''"
proof -
  have "refine ex_sentence_body = take (Suc 250) (collapse_and_strip ex_sentence_body)"
    using excerpt_refiner[of ex_sentence_body 250] ex_sentence_facts by simp
  moreover have "refine ex_fallback_body = take 300 (collapse_and_strip ex_fallback_body) @ ''...''"
    using excerpt_refiner[of ex_fallback_body 0] ex_fallback_facts by simp
  moreover have "refine ex_short_body = collapse_and_strip ex_short_body"
    using excerpt_refiner[of ex_short_body 0] ex_short_facts by simp
  ultimately show ?thesis
    using ex_sentence_facts ex_fallback_facts ex_short_facts by simp
qed

end
